theory Spec2Isabelle
  imports
    Main
    "HOL-Library.Word"
    "HOL-Library.Signed_Division"
    "HOL-Library.Char_ord"
    "HOL-Library.List_Lexorder"
    "HOL-Library.Multiset"
begin

section \<open>Monetary values (models.go)\<close>

text \<open>
  Go's \<^verbatim>\<open>int64\<close> is a 64-bit two's complement word: \<open>+\<close>, \<open>-\<close> and \<open>*\<close> wrap around,
  comparisons read the word as a signed number (\<open>sint\<close>), and \<^verbatim>\<open>/\<close> and \<^verbatim>\<open>%\<close> truncate
  towards zero (\<open>sdiv\<close> and \<open>smod\<close> on the signed readings, the result stored back in the
  word, so that the most negative value divided by \<open>-1\<close> is itself, as the Go specification
  says). Division by zero panics in Go; the only divisions of this program are guarded by
  \<^verbatim>\<open>denom == 0\<close>.
\<close>

type_synonym int64 = "64 word"

definition go_quo :: "int64 \<Rightarrow> int64 \<Rightarrow> int64" where
  "go_quo a b = word_of_int (sint a sdiv sint b)"

definition go_rem :: "int64 \<Rightarrow> int64 \<Rightarrow> int64" where
  "go_rem a b = word_of_int (sint a smod sint b)"

text \<open>Decimal digits of a natural number, most significant first (the digits of \<^verbatim>\<open>%d\<close>).\<close>

definition digit_char :: "nat \<Rightarrow> char" where
  "digit_char d = ''0123456789'' ! d"

fun show_nat :: "nat \<Rightarrow> string" where
  "show_nat n = (if n < 10 then [digit_char n] else show_nat (n div 10) @ [digit_char (n mod 10)])"

declare show_nat.simps [simp del]

definition zero_pad :: "nat \<Rightarrow> string \<Rightarrow> string" where
  "zero_pad w s = replicate (w - length s) (CHR ''0'') @ s"

text \<open>
  \<^verbatim>\<open>%d\<close> and \<^verbatim>\<open>%02d\<close> of package fmt on a signed integer. With the zero flag and a width
  the digits are padded with zeros up to the width, one less when a sign is printed; the
  sign comes first.
\<close>

definition fmt_d :: "int \<Rightarrow> string" where
  "fmt_d i = (if i < 0 then ''-'' @ show_nat (nat (- i)) else show_nat (nat i))"

definition fmt_02d :: "int \<Rightarrow> string" where
  "fmt_02d i = (if i < 0 then ''-'' @ zero_pad 1 (show_nat (nat (- i)))
                else zero_pad 2 (show_nat (nat i)))"

text \<open>
  \<^verbatim>\<open>
  func FormatDecimal(num, denom int64) string {
      if denom == 0 { return "0.00" }
      negative := false
      if num < 0 { negative = true; num = -num }
      whole := num / denom
      frac := (num % denom) * 100 / denom
      sign := ""
      if negative { sign = "-" }
      return fmt.Sprintf("%s%d.%02d", sign, whole, frac)
  }
  \<close>
\<close>

definition FormatDecimal :: "int64 \<Rightarrow> int64 \<Rightarrow> string" where
  "FormatDecimal num denom =
     (if denom = 0 then ''0.00''
      else
        let negative = (sint num < 0);
            num' = (if negative then - num else num);
            whole = go_quo num' denom;
            frac = go_quo (go_rem num' denom * 100) denom;
            sign = (if negative then ''-'' else '''')
        in sign @ fmt_d (sint whole) @ ''.'' @ fmt_02d (sint frac))"

text \<open>
  The rendering contract in the specification's words, over the mathematical integers:
  \<open>[-]W.FF\<close> with \<open>W\<close> the truncated quotient of the absolute numerator by the
  denominator, \<open>FF\<close> the two-digit \<open>(|numerator| mod denominator) * 100 / denominator\<close>,
  the sign only for negative values, and \<open>0.00\<close> for a zero denominator.
\<close>

definition FormatDecimal_spec :: "int \<Rightarrow> int \<Rightarrow> string" where
  "FormatDecimal_spec n d =
     (if d = 0 then ''0.00''
      else (if n < 0 then ''-'' else '''') @ show_nat (nat (\<bar>n\<bar> div d)) @ ''.'' @
           zero_pad 2 (show_nat (nat ((\<bar>n\<bar> mod d) * 100 div d))))"

text \<open>
  The pairs on which the 64-bit arithmetic of \<open>FormatDecimal\<close> does not wrap: a positive
  denominator, a numerator that can be negated, and a scaled remainder that fits.
\<close>

definition fmt_range :: "int64 \<Rightarrow> int64 \<Rightarrow> bool" where
  "fmt_range num denom \<longleftrightarrow>
     0 < sint denom \<and> sint num \<noteq> - (2 ^ 63) \<and> (\<bar>sint num\<bar> mod sint denom) * 100 < 2 ^ 63"

text \<open>
  The amount that a two-decimal figure \<open>[-]W.FF\<close> denotes, in hundredths; \<open>None\<close> for a
  text that is no such figure. It reads back what the reports display.
\<close>

definition digit_value :: "char \<Rightarrow> nat option" where
  "digit_value c = map_of (zip ''0123456789'' [0, 1, 2, 3, 4, 5, 6, 7, 8, 9]) c"

fun read_digits :: "nat \<Rightarrow> string \<Rightarrow> nat option" where
  "read_digits acc [] = Some acc"
| "read_digits acc (c # cs) =
     (case digit_value c of None \<Rightarrow> None | Some v \<Rightarrow> read_digits (10 * acc + v) cs)"

definition read_nat :: "string \<Rightarrow> nat option" where
  "read_nat s = (if s = [] then None else read_digits 0 s)"

definition read_figure :: "string \<Rightarrow> nat option" where
  "read_figure s =
     (let w = takeWhile (\<lambda>c. c \<noteq> CHR ''.'') s;
          f = drop (Suc (length w)) s
      in if length w < length s \<and> length f = 2
         then (case read_nat w of
                 None \<Rightarrow> None
               | Some a \<Rightarrow> (case read_nat f of None \<Rightarrow> None | Some b \<Rightarrow> Some (100 * a + b)))
         else None)"

definition hundredths :: "string \<Rightarrow> int option" where
  "hundredths s =
     (case s of
        [] \<Rightarrow> None
      | c # r \<Rightarrow>
          if c = CHR ''-'' then map_option (\<lambda>n. - int n) (read_figure r)
          else map_option int (read_figure s))"

section \<open>The platform: Go's standard library and SQLite's date functions\<close>

text \<open>
  The service reads the clock and parses and formats dates through Go's package
  \<^verbatim>\<open>time\<close>, one query calls SQLite's \<^verbatim>\<open>strftime\<close>, and the resolver folds case with
  Go's package \<^verbatim>\<open>strings\<close>, which turns to the Unicode tables for a text with a byte
  from \<^verbatim>\<open>0x80\<close> up. None of these is code of this repository; they are parameters of
  the model. \<open>'t\<close> is \<^verbatim>\<open>time.Time\<close>, \<open>time_Now\<close> is the instant \<^verbatim>\<open>time.Now()\<close> returns to
  the call at hand, \<open>None\<close> is a parse error or SQL's \<^verbatim>\<open>NULL\<close>. \<open>unicode_ToLower\<close> is
  \<^verbatim>\<open>strings.Map(unicode.ToLower, s)\<close>, and \<open>unicode_EqualFold\<close> is the loop of
  \<^verbatim>\<open>strings.EqualFold\<close> that compares two texts rune by rune under Unicode simple case
  folding.
\<close>

record 't platform =
  time_Parse :: "string \<Rightarrow> string \<Rightarrow> 't option"
  time_Format :: "'t \<Rightarrow> string \<Rightarrow> string"
  time_Zero :: 't
  time_Now :: 't
  time_AddDate :: "'t \<Rightarrow> int \<Rightarrow> int \<Rightarrow> int \<Rightarrow> 't"
  time_Day :: "'t \<Rightarrow> int"
  sql_strftime :: "string \<Rightarrow> string \<Rightarrow> string option"
  unicode_ToLower :: "string \<Rightarrow> string"
  unicode_EqualFold :: "string \<Rightarrow> string \<Rightarrow> bool"

section \<open>Strings\<close>

text \<open>
  Strings are lists of bytes, as in Go; a text outside ASCII is its UTF-8 encoding. A
  byte is outside ASCII when it is \<^verbatim>\<open>utf8.RuneSelf\<close> (\<^verbatim>\<open>0x80\<close>) or more. \<open>to_lower_char\<close>
  puts the 26 ASCII capitals in lower case and leaves every other byte as it is.
\<close>

definition nl :: string where
  "nl = [CHR 0x0A]"

definition tab :: string where
  "tab = [CHR 0x09]"

definition to_lower_char :: "char \<Rightarrow> char" where
  "to_lower_char c =
     (case map_of (zip ''ABCDEFGHIJKLMNOPQRSTUVWXYZ'' ''abcdefghijklmnopqrstuvwxyz'') c of
        None \<Rightarrow> c | Some l \<Rightarrow> l)"

definition ascii_lower :: "string \<Rightarrow> string" where
  "ascii_lower s = map to_lower_char s"

definition non_ascii :: "char \<Rightarrow> bool" where
  "non_ascii c \<longleftrightarrow> (0x80 :: nat) \<le> of_char c"

definition isASCII :: "string \<Rightarrow> bool" where
  "isASCII s \<longleftrightarrow> list_all (\<lambda>c. \<not> non_ascii c) s"

text \<open>
  Go's \<^verbatim>\<open>strings.ToLower\<close>:
  \<^verbatim>\<open>
  isASCII, hasUpper := true, false
  for i := 0; i < len(s); i++ {
      c := s[i]
      if c >= utf8.RuneSelf { isASCII = false; break }
      hasUpper = hasUpper || ('A' <= c && c <= 'Z')
  }
  if isASCII { ... lower the capitals, byte by byte ... }
  return Map(unicode.ToLower, s)
  \<close>
\<close>

definition ToLower :: "'t platform \<Rightarrow> string \<Rightarrow> string" where
  "ToLower pf s = (if isASCII s then ascii_lower s else unicode_ToLower pf s)"

text \<open>
  Go's \<^verbatim>\<open>strings.EqualFold\<close>:
  \<^verbatim>\<open>
  i := 0
  for ; i < len(s) && i < len(t); i++ {
      sr := s[i]; tr := t[i]
      if sr|tr >= utf8.RuneSelf { goto hasUnicode }
      if tr == sr { continue }
      if tr < sr { tr, sr = sr, tr }
      if 'A' <= sr && sr <= 'Z' && tr == sr+'a'-'A' { continue }
      return false
  }
  return len(s) == len(t)
  hasUnicode:
      s = s[i:]; t = t[i:]
      ... compare rune by rune under Unicode simple folding ...
  \<close>
  Two ASCII bytes pass when they are equal or one is a capital and the other the same
  letter in lower case, that is when \<open>to_lower_char\<close> gives the same for both.
\<close>

fun EqualFold :: "'t platform \<Rightarrow> string \<Rightarrow> string \<Rightarrow> bool" where
  "EqualFold pf [] [] = True"
| "EqualFold pf [] (tr # t) = False"
| "EqualFold pf (sr # s) [] = False"
| "EqualFold pf (sr # s) (tr # t) =
     (if non_ascii sr \<or> non_ascii tr then unicode_EqualFold pf (sr # s) (tr # t)
      else if to_lower_char sr = to_lower_char tr then EqualFold pf s t
      else False)"

fun Join :: "string list \<Rightarrow> string \<Rightarrow> string" where
  "Join [] sep = []"
| "Join [x] sep = x"
| "Join (x # y # ys) sep = x @ sep @ Join (y # ys) sep"

text \<open>\<^verbatim>\<open>%-30s\<close> pads on the right and \<^verbatim>\<open>%10s\<close> on the left, with spaces, up to the width.\<close>

definition pad_right :: "nat \<Rightarrow> string \<Rightarrow> string" where
  "pad_right w s = s @ replicate (w - length s) (CHR '' '')"

definition pad_left :: "nat \<Rightarrow> string \<Rightarrow> string" where
  "pad_left w s = replicate (w - length s) (CHR '' '') @ s"

text \<open>
  SQLite's built-in \<^verbatim>\<open>LOWER\<close> and \<^verbatim>\<open>LIKE\<close> know the case of the 26 ASCII letters only
  (the Unicode-aware versions are an extension that the driver of this program,
  \<^verbatim>\<open>modernc.org/sqlite\<close>, does not load).
\<close>

definition sql_LOWER :: "string \<Rightarrow> string" where
  "sql_LOWER s = ascii_lower s"

text \<open>
  SQLite's \<^verbatim>\<open>X LIKE Y\<close> with the pattern first: \<^verbatim>\<open>%\<close> matches any run of characters,
  \<^verbatim>\<open>_\<close> any one character, every other character itself up to ASCII case. A bound
  parameter is a pattern like any other: its \<^verbatim>\<open>%\<close> and \<^verbatim>\<open>_\<close> are wildcards. The
  characters are the bytes here, which is \<^verbatim>\<open>LIKE\<close> on ASCII text without the byte zero
  (\<open>ascii_text\<close> below); SQLite itself steps through UTF-8 characters and stops at a
  byte zero.
\<close>

fun sql_like :: "string \<Rightarrow> string \<Rightarrow> bool" where
  "sql_like [] [] = True"
| "sql_like [] (c # cs) = False"
| "sql_like (p # ps) [] = (p = CHR ''%'' \<and> sql_like ps [])"
| "sql_like (p # ps) (c # cs) =
     (if p = CHR ''%'' then sql_like ps (c # cs) \<or> sql_like (p # ps) cs
      else (p = CHR ''_'' \<or> to_lower_char p = to_lower_char c) \<and> sql_like ps cs)"

definition ascii_text :: "string \<Rightarrow> bool" where
  "ascii_text s \<longleftrightarrow> list_all (\<lambda>c. c \<noteq> CHR 0x00 \<and> \<not> non_ascii c) s"

text \<open>
  The case-insensitive substring relation the interface documents for account names,
  on ASCII text: some stretch of \<open>s\<close> is \<open>name\<close> up to the case of the letters.
\<close>

definition ci_substring :: "string \<Rightarrow> string \<Rightarrow> bool" where
  "ci_substring name s \<longleftrightarrow>
     list_ex (\<lambda>k. length name \<le> length (drop k s) \<and>
                  ascii_lower (take (length name) (drop k s)) = ascii_lower name)
             [0..<Suc (length s)]"

definition has_wildcard :: "string \<Rightarrow> bool" where
  "has_wildcard name \<longleftrightarrow> CHR ''%'' \<in> set name \<or> CHR ''_'' \<in> set name"

section \<open>The ledger store (db.go)\<close>

text \<open>
  The three tables the queries read, as lists of rows in table order. The columns that
  the queries wrap in \<^verbatim>\<open>COALESCE\<close> somewhere are nullable (\<open>None\<close> is \<^verbatim>\<open>NULL\<close>); the other
  columns hold values. \<^verbatim>\<open>guid\<close> is the primary key of each table. A query is taken to
  run to its end: the errors of the model are those that the code and SQLite raise on
  the data (a failed scan, an overflowing \<^verbatim>\<open>SUM\<close>), not the failures of a connection.
\<close>

record account_row =
  ar_guid :: string
  ar_name :: string
  ar_account_type :: string
  ar_parent_guid :: "string option"
  ar_description :: "string option"
  ar_hidden :: int
  ar_placeholder :: int

record transaction_row =
  tr_guid :: string
  tr_post_date :: string
  tr_description :: string

record split_row =
  sr_guid :: string
  sr_tx_guid :: string
  sr_account_guid :: string
  sr_memo :: "string option"
  sr_value_num :: int64
  sr_value_denom :: int64

record DB =
  accounts :: "account_row list"
  transactions :: "transaction_row list"
  splits :: "split_row list"

text \<open>
  The domain entities of models.go. \<^verbatim>\<open>Account.Children\<close> is never assigned and stays
  \<^verbatim>\<open>nil\<close>; it is left out. \<^verbatim>\<open>FullName\<close> is declared as computed, and no query of db.go
  assigns it: it keeps Go's zero value, the empty string.
\<close>

record Account =
  acc_GUID :: string
  acc_Name :: string
  acc_AccountType :: string
  acc_ParentGUID :: string
  acc_Description :: string
  acc_Hidden :: bool
  acc_Placeholder :: bool
  acc_FullName :: string

record Split =
  sp_GUID :: string
  sp_TxGUID :: string
  sp_AccountGUID :: string
  sp_AccountName :: string
  sp_Memo :: string
  sp_ValueNum :: int64
  sp_ValueDenom :: int64

record 't Transaction =
  tx_GUID :: string
  tx_PostDate :: 't
  tx_Description :: string
  tx_Splits :: "Split list"

text \<open>Errors are the messages of \<^verbatim>\<open>fmt.Errorf\<close>.\<close>

datatype error = Errorf string

definition FormatAmount :: "Split \<Rightarrow> string" where
  "FormatAmount s = FormatDecimal (sp_ValueNum s) (sp_ValueDenom s)"

definition coalesce :: "string option \<Rightarrow> string" where
  "coalesce v = (case v of None \<Rightarrow> [] | Some x \<Rightarrow> x)"

text \<open>\<^verbatim>\<open>rows.Scan\<close> of the seven account columns into an \<^verbatim>\<open>Account\<close>.\<close>

definition scan_account :: "account_row \<Rightarrow> Account" where
  "scan_account r =
     \<lparr> acc_GUID = ar_guid r, acc_Name = ar_name r, acc_AccountType = ar_account_type r,
       acc_ParentGUID = coalesce (ar_parent_guid r),
       acc_Description = coalesce (ar_description r),
       acc_Hidden = (ar_hidden r \<noteq> 0), acc_Placeholder = (ar_placeholder r \<noteq> 0),
       acc_FullName = [] \<rparr>"

text \<open>
  \<^verbatim>\<open>
  SELECT c.guid, c.name, c.account_type, COALESCE(c.parent_guid, ''), ...
  FROM accounts c inner join accounts p on c.parent_guid = p.guid
  WHERE c.parent_guid IS NOT NULL AND p.name != 'Template Root'
  ORDER BY c.name;
  \<close>
  \<^verbatim>\<open>ORDER BY\<close> compares the names bytewise; rows with equal keys are kept in table order
  (SQL leaves their order open).
\<close>

definition GetAllAccounts :: "DB \<Rightarrow> error + Account list" where
  "GetAllAccounts db =
     Inr (map scan_account
       (sort_key ar_name
         [c. c \<leftarrow> accounts db, p \<leftarrow> accounts db,
             ar_parent_guid c = Some (ar_guid p), ar_name p \<noteq> ''Template Root'']))"

text \<open>
  \<^verbatim>\<open>
  pattern := "%" + strings.ToLower(name) + "%"
  SELECT guid, name, ... FROM accounts WHERE LOWER(name) LIKE ? ORDER BY name
  \<close>
\<close>

definition FindAccountsByName :: "'t platform \<Rightarrow> DB \<Rightarrow> string \<Rightarrow> error + Account list" where
  "FindAccountsByName pf db name =
     (let pattern = ''%'' @ ToLower pf name @ ''%''
      in Inr (map scan_account
           (sort_key ar_name
             (filter (\<lambda>a. sql_like pattern (sql_LOWER (ar_name a))) (accounts db)))))"

section \<open>The service (service.go): accounts\<close>

text \<open>
  \<^verbatim>\<open>
  func (s *Service) ListAccounts(ctx context.Context, accountType string) (string, error) {
      accounts, err := s.db.GetAllAccounts(ctx)
      if err != nil { return "", err }
      var sb strings.Builder
      for _, acc := range accounts {
          fmt.Fprintf(&sb, "%s\t%s%i\n", acc.FullName, acc.AccountType, acc.)
      }
      result := sb.String()
      if result == "" { return "No accounts found.", nil }
      return result, nil
  }
  \<close>
  The third operand of the format is cut off in the source (\<^verbatim>\<open>acc.\<close>) and \<^verbatim>\<open>%i\<close> is
  no verb of package fmt; what the line prints for it is the parameter \<open>third\<close>. The
  parameter \<^verbatim>\<open>accountType\<close> is not read anywhere in the body.
\<close>

definition account_line :: "(Account \<Rightarrow> string) \<Rightarrow> Account \<Rightarrow> string" where
  "account_line third acc = acc_FullName acc @ tab @ acc_AccountType acc @ third acc @ nl"

definition ListAccounts :: "(Account \<Rightarrow> string) \<Rightarrow> DB \<Rightarrow> string \<Rightarrow> error + string" where
  "ListAccounts third db accountType =
     (case GetAllAccounts db of
        Inl err \<Rightarrow> Inl err
      | Inr accs \<Rightarrow>
          let result = concat (map (account_line third) accs)
          in if result = [] then Inr ''No accounts found.'' else Inr result)"

text \<open>
  \<^verbatim>\<open>
  func (s *Service) resolveAccount(ctx context.Context, name string) (*Account, error) {
      accounts, err := s.db.FindAccountsByName(ctx, name)
      if err != nil { return nil, err }
      if len(accounts) == 0 {
          return nil, fmt.Errorf("no account found matching '%s'", name)
      }
      for i, a := range accounts {
          if strings.EqualFold(a.Name, name) { return &accounts[i], nil }
      }
      if len(accounts) > 1 {
          names := make([]string, len(accounts))
          for i, a := range accounts {
              names[i] = fmt.Sprintf("  - %s [%s]", a.Name, a.AccountType)
          }
          return nil, fmt.Errorf("multiple accounts match '%s':\n%s\nPlease be more specific.",
              name, strings.Join(names, "\n"))
      }
      return &accounts[0], nil
  }
  \<close>
\<close>

definition not_found_error :: "string \<Rightarrow> error" where
  "not_found_error name =
     Errorf (''no account found matching '' @ [CHR 0x27] @ name @ [CHR 0x27])"

definition candidate_line :: "Account \<Rightarrow> string" where
  "candidate_line a = ''  - '' @ acc_Name a @ '' ['' @ acc_AccountType a @ '']''"

definition ambiguous_error :: "string \<Rightarrow> Account list \<Rightarrow> error" where
  "ambiguous_error name accs =
     Errorf (''multiple accounts match '' @ [CHR 0x27] @ name @ [CHR 0x27] @ '':'' @ nl @
             Join (map candidate_line accs) nl @ nl @ ''Please be more specific.'')"

definition resolveAccount :: "'t platform \<Rightarrow> DB \<Rightarrow> string \<Rightarrow> error + Account" where
  "resolveAccount pf db name =
     (case FindAccountsByName pf db name of
        Inl err \<Rightarrow> Inl err
      | Inr accs \<Rightarrow>
          if length accs = 0 then Inl (not_found_error name)
          else (case find (\<lambda>a. EqualFold pf (acc_Name a) name) accs of
                  Some a \<Rightarrow> Inr a
                | None \<Rightarrow>
                    if length accs > 1 then Inl (ambiguous_error name accs)
                    else Inr (accs ! 0)))"

text \<open>The candidates of a resolution, and the rows that contain the name as a substring.\<close>

definition candidates :: "'t platform \<Rightarrow> DB \<Rightarrow> string \<Rightarrow> Account list" where
  "candidates pf db name =
     (case FindAccountsByName pf db name of Inl err \<Rightarrow> [] | Inr accs \<Rightarrow> accs)"

definition substring_matches :: "DB \<Rightarrow> string \<Rightarrow> account_row list" where
  "substring_matches db name = filter (\<lambda>r. ci_substring name (ar_name r)) (accounts db)"

definition exact_match :: "'t platform \<Rightarrow> string \<Rightarrow> Account \<Rightarrow> bool" where
  "exact_match pf name a \<longleftrightarrow> EqualFold pf (acc_Name a) name"

text \<open>
  Modelled from the spec: the full path of an account, which no function of the source
  computes. It is the names from the top-level ancestor down to the account, joined by
  colons, the root left out. The fuel bounds the walk up the parent references.
\<close>

fun path_names :: "nat \<Rightarrow> account_row list \<Rightarrow> account_row \<Rightarrow> string list" where
  "path_names 0 rows r = []"
| "path_names (Suc k) rows r =
     (case ar_parent_guid r of
        None \<Rightarrow> []
      | Some g \<Rightarrow>
          (case find (\<lambda>p. ar_guid p = g) rows of
             None \<Rightarrow> [ar_name r]
           | Some p \<Rightarrow> path_names k rows p @ [ar_name r]))"

definition full_path :: "DB \<Rightarrow> account_row \<Rightarrow> string" where
  "full_path db r = Join (path_names (Suc (length (accounts db))) (accounts db) r) '':''"

section \<open>Parsing dates (db.go)\<close>

text \<open>
  \<^verbatim>\<open>
  func parseDate(s string) (time.Time, error) {
      t, err := time.Parse("2006-01-02 15:04:05", s)
      if err != nil { t, err = time.Parse("20060102150405", s) }
      return t, err
  }
  \<close>
  The callers drop the error and keep the time, which is the zero time when both
  layouts fail.
\<close>

definition parseDate :: "'t platform \<Rightarrow> string \<Rightarrow> 't \<times> bool" where
  "parseDate pf s =
     (case time_Parse pf ''2006-01-02 15:04:05'' s of
        Some t \<Rightarrow> (t, True)
      | None \<Rightarrow>
          (case time_Parse pf ''20060102150405'' s of
             Some t \<Rightarrow> (t, True)
           | None \<Rightarrow> (time_Zero pf, False)))"

section \<open>The ledger store: transactions of an account\<close>

text \<open>
  SQL's \<^verbatim>\<open>ORDER BY key DESC\<close> on text, compared bytewise. Rows with equal keys stay in the
  order of the join (SQL leaves their order open). \<^verbatim>\<open>LIMIT n\<close> keeps the first \<open>n\<close> rows
  of the ordered result; the source adds it for a positive limit only.
\<close>

definition order_by_desc :: "('a \<Rightarrow> string) \<Rightarrow> 'a list \<Rightarrow> 'a list" where
  "order_by_desc key xs = rev (sort_key key (rev xs))"

definition sql_limit :: "int \<Rightarrow> 'a list \<Rightarrow> 'a list" where
  "sql_limit limit xs = (if limit > 0 then take (nat limit) xs else xs)"

definition start_of_day :: "string \<Rightarrow> string" where
  "start_of_day d = d @ '' 00:00:00''"

definition end_of_day :: "string \<Rightarrow> string" where
  "end_of_day d = d @ '' 23:59:59''"

text \<open>
  \<^verbatim>\<open>
  SELECT t.guid, t.post_date, t.description,
         s.guid, s.memo, s.value_num, s.value_denom,
         s2.account_guid, COALESCE(a2.name, ''), s2.value_num, s2.value_denom,
         COALESCE(s2.memo, '')
  FROM splits s
  JOIN transactions t ON s.tx_guid = t.guid
  JOIN splits s2 ON s2.tx_guid = t.guid AND s2.guid != s.guid
  JOIN accounts a2 ON s2.account_guid = a2.guid
  WHERE s.account_guid = ?  [AND t.post_date >= ?]  [AND t.post_date <= ?]
  ORDER BY t.post_date DESC  [LIMIT n]
  \<close>
  A row of the result is the four table rows it joins.
\<close>

type_synonym split_join = "split_row \<times> transaction_row \<times> split_row \<times> account_row"

definition sj_post_date :: "split_join \<Rightarrow> string" where
  "sj_post_date r = (case r of (s, t, s2, a2) \<Rightarrow> tr_post_date t)"

definition sj_tx_guid :: "split_join \<Rightarrow> string" where
  "sj_tx_guid r = (case r of (s, t, s2, a2) \<Rightarrow> tr_guid t)"

definition splits_join :: "DB \<Rightarrow> string \<Rightarrow> string \<Rightarrow> string \<Rightarrow> split_join list" where
  "splits_join db accountGUID startDate endDate =
     [(s, t, s2, a2).
        s \<leftarrow> splits db, sr_account_guid s = accountGUID,
        t \<leftarrow> transactions db, sr_tx_guid s = tr_guid t,
        startDate = [] \<or> start_of_day startDate \<le> tr_post_date t,
        endDate = [] \<or> tr_post_date t \<le> end_of_day endDate,
        s2 \<leftarrow> splits db, sr_tx_guid s2 = tr_guid t \<and> sr_guid s2 \<noteq> sr_guid s,
        a2 \<leftarrow> accounts db, sr_account_guid s2 = ar_guid a2]"

definition splits_query :: "DB \<Rightarrow> string \<Rightarrow> string \<Rightarrow> string \<Rightarrow> int \<Rightarrow> split_join list" where
  "splits_query db accountGUID startDate endDate limit =
     sql_limit limit (order_by_desc sj_post_date (splits_join db accountGUID startDate endDate))"

text \<open>
  The loop over the rows. \<^verbatim>\<open>txMap\<close> maps a transaction GUID to the transaction built so
  far and \<^verbatim>\<open>txOrder\<close> lists the GUIDs in the order of first appearance. \<^verbatim>\<open>rows.Scan\<close> reads
  \<^verbatim>\<open>s.memo\<close> into a Go string with no \<^verbatim>\<open>COALESCE\<close>: a \<^verbatim>\<open>NULL\<close> memo is a scan error and
  the function returns it.
  \<^verbatim>\<open>
  tx, exists := txMap[txGUID]
  if !exists {
      postDate, _ := parseDate(postDateStr)
      tx = &Transaction{GUID: txGUID, PostDate: postDate, Description: desc,
          Splits: []Split{{GUID: splitGUID, TxGUID: txGUID, AccountGUID: accountGUID,
              Memo: memo, ValueNum: valueNum, ValueDenom: valueDenom}}}
      txMap[txGUID] = tx
      txOrder = append(txOrder, txGUID)
  }
  tx.Splits = append(tx.Splits, Split{TxGUID: txGUID, AccountGUID: counterAccGUID,
      AccountName: counterAccName, Memo: counterMemo,
      ValueNum: counterNum, ValueDenom: counterDenom})
  \<close>
\<close>

definition map_update :: "'k \<Rightarrow> 'v \<Rightarrow> ('k \<times> 'v) list \<Rightarrow> ('k \<times> 'v) list" where
  "map_update k v m = (if k \<in> fst ` set m then map (\<lambda>p. if fst p = k then (k, v) else p) m
                       else m @ [(k, v)])"

definition own_split :: "string \<Rightarrow> split_row \<Rightarrow> transaction_row \<Rightarrow> string \<Rightarrow> Split" where
  "own_split accountGUID s t memo =
     \<lparr> sp_GUID = sr_guid s, sp_TxGUID = tr_guid t, sp_AccountGUID = accountGUID,
       sp_AccountName = [], sp_Memo = memo,
       sp_ValueNum = sr_value_num s, sp_ValueDenom = sr_value_denom s \<rparr>"

definition counterpart_split :: "transaction_row \<Rightarrow> split_row \<Rightarrow> account_row \<Rightarrow> Split" where
  "counterpart_split t s2 a2 =
     \<lparr> sp_GUID = [], sp_TxGUID = tr_guid t, sp_AccountGUID = sr_account_guid s2,
       sp_AccountName = ar_name a2, sp_Memo = coalesce (sr_memo s2),
       sp_ValueNum = sr_value_num s2, sp_ValueDenom = sr_value_denom s2 \<rparr>"

definition scan_split_error :: error where
  "scan_split_error =
     Errorf (''scan split: sql: Scan error on column index 4, name '' @ [CHR 0x22] @
             ''s.memo'' @ [CHR 0x22] @ '': converting NULL to string is unsupported'')"

fun collect_transactions ::
  "'t platform \<Rightarrow> string \<Rightarrow> split_join list \<Rightarrow>
   (string \<times> 't Transaction) list \<times> string list \<Rightarrow>
   error + ((string \<times> 't Transaction) list \<times> string list)" where
  "collect_transactions pf accountGUID [] st = Inr st"
| "collect_transactions pf accountGUID ((s, t, s2, a2) # rows) (txMap, txOrder) =
     (case sr_memo s of
        None \<Rightarrow> Inl scan_split_error
      | Some memo \<Rightarrow>
          let txGUID = tr_guid t;
              (tx, txMap1, txOrder1) =
                (case map_of txMap txGUID of
                   Some tx \<Rightarrow> (tx, txMap, txOrder)
                 | None \<Rightarrow>
                     let tx = \<lparr> tx_GUID = txGUID,
                                tx_PostDate = fst (parseDate pf (tr_post_date t)),
                                tx_Description = tr_description t,
                                tx_Splits = [own_split accountGUID s t memo] \<rparr>
                     in (tx, map_update txGUID tx txMap, txOrder @ [txGUID]));
              tx' = tx \<lparr> tx_Splits := tx_Splits tx @ [counterpart_split t s2 a2] \<rparr>
          in collect_transactions pf accountGUID rows (map_update txGUID tx' txMap1, txOrder1))"

text \<open>The invariant of the loop: a transaction is stored under its own GUID.\<close>

definition tx_inv :: "(string \<times> 't Transaction) list \<Rightarrow> bool" where
  "tx_inv m \<longleftrightarrow> (\<forall>g tx. map_of m g = Some tx \<longrightarrow> tx_GUID tx = g)"

definition GetSplitsForAccount ::
  "'t platform \<Rightarrow> DB \<Rightarrow> string \<Rightarrow> string \<Rightarrow> string \<Rightarrow> int \<Rightarrow> error + 't Transaction list" where
  "GetSplitsForAccount pf db accountGUID startDate endDate limit =
     (case collect_transactions pf accountGUID
             (splits_query db accountGUID startDate endDate limit) ([], []) of
        Inl err \<Rightarrow> Inl err
      | Inr (txMap, txOrder) \<Rightarrow>
          Inr (concat (map (\<lambda>guid. case map_of txMap guid of None \<Rightarrow> [] | Some tx \<Rightarrow> [tx])
                           txOrder)))"

text \<open>
  \<^verbatim>\<open>GetTransactions\<close> of service.go: resolve the account, default the limit to 50, query,
  and render one line for each transaction: the date, the amount of \<^verbatim>\<open>Splits[0]\<close>, the
  description and the names of \<^verbatim>\<open>Splits[1:]\<close> in brackets. The slices \<^verbatim>\<open>Splits[0]\<close> and
  \<^verbatim>\<open>Splits[1:]\<close> are in range: every transaction the query builds has its own split and
  at least one counterpart.
\<close>

definition transaction_line :: "'t platform \<Rightarrow> 't Transaction \<Rightarrow> string" where
  "transaction_line pf tx =
     (let amount = FormatAmount (hd (tx_Splits tx));
          counter = Join (map sp_AccountName (tl (tx_Splits tx))) '', ''
      in time_Format pf (tx_PostDate tx) ''2006-01-02'' @ ''  '' @ amount @ '' EUR  '' @
         tx_Description tx @
         (if counter \<noteq> [] then ''  ['' @ counter @ '']'' else []) @ nl)"

definition transactions_header :: "Account \<Rightarrow> string \<Rightarrow> string \<Rightarrow> nat \<Rightarrow> string" where
  "transactions_header account startDate endDate n =
     ''Transactions for '' @ acc_Name account @ '' ['' @ acc_AccountType account @ '']'' @
     (if startDate \<noteq> [] \<or> endDate \<noteq> [] then
        '' ('' @ (if startDate \<noteq> [] then ''from '' @ startDate else []) @
        (if endDate \<noteq> [] then (if startDate \<noteq> [] then '' '' else []) @ ''to '' @ endDate
         else []) @ '')''
      else []) @
     nl @ ''Showing '' @ fmt_d (int n) @ '' transactions:'' @ nl @ nl"

definition GetTransactions ::
  "'t platform \<Rightarrow> DB \<Rightarrow> string \<Rightarrow> string \<Rightarrow> string \<Rightarrow> int \<Rightarrow> error + string" where
  "GetTransactions pf db accountName startDate endDate limit =
     (case resolveAccount pf db accountName of
        Inl err \<Rightarrow> Inl err
      | Inr account \<Rightarrow>
          let limit' = (if limit \<le> 0 then 50 else limit)
          in (case GetSplitsForAccount pf db (acc_GUID account) startDate endDate limit' of
                Inl err \<Rightarrow> Inl err
              | Inr txs \<Rightarrow>
                  if length txs = 0
                  then Inr (''No transactions found for '' @ acc_Name account @
                            '' in the given period.'')
                  else Inr (transactions_header account startDate endDate (length txs) @
                            concat (map (transaction_line pf) txs))))"

text \<open>
  The transactions that match an account and a date range: those with a split of the
  account, posted in the range, latest first. This is what the limit of the interface
  counts (``maximum number of transactions to return'').
\<close>

definition matching_transactions :: "DB \<Rightarrow> string \<Rightarrow> string \<Rightarrow> string \<Rightarrow> transaction_row list" where
  "matching_transactions db accountGUID startDate endDate =
     order_by_desc tr_post_date
       [t. t \<leftarrow> transactions db,
           (startDate = [] \<or> start_of_day startDate \<le> tr_post_date t),
           (endDate = [] \<or> tr_post_date t \<le> end_of_day endDate),
           list_ex (\<lambda>s. sr_tx_guid s = tr_guid t \<and> sr_account_guid s = accountGUID) (splits db)]"

text \<open>
  A transaction is lonely for an account when no split of it on that account has a
  counterpart: another split row of the same transaction whose account exists.
\<close>

definition counterparts :: "DB \<Rightarrow> split_row \<Rightarrow> split_row list" where
  "counterparts db s =
     [s2. s2 \<leftarrow> splits db, sr_tx_guid s2 = sr_tx_guid s \<and> sr_guid s2 \<noteq> sr_guid s,
          list_ex (\<lambda>a2. sr_account_guid s2 = ar_guid a2) (accounts db)]"

definition lonely :: "DB \<Rightarrow> string \<Rightarrow> string \<Rightarrow> bool" where
  "lonely db accountGUID txGUID \<longleftrightarrow>
     list_all (\<lambda>s. sr_tx_guid s = txGUID \<and> sr_account_guid s = accountGUID \<longrightarrow>
                   counterparts db s = []) (splits db)"

definition tx_summary :: "'t Transaction \<Rightarrow> string \<times> string list" where
  "tx_summary tx = (tx_GUID tx, map sp_AccountName (tx_Splits tx))"

definition remove_transaction :: "string \<Rightarrow> DB \<Rightarrow> DB" where
  "remove_transaction txGUID db =
     db \<lparr> transactions := filter (\<lambda>t. tr_guid t \<noteq> txGUID) (transactions db) \<rparr>"

section \<open>The ledger store: balances\<close>

text \<open>
  SQLite's \<^verbatim>\<open>SUM\<close> over integers adds in 64 bits and raises ``integer overflow'' when a
  partial sum leaves the range; over no rows it is \<^verbatim>\<open>NULL\<close>. \<^verbatim>\<open>MAX\<close> compares the signed
  values. The rows are visited in the order of the join.
\<close>

definition in_int64 :: "int \<Rightarrow> bool" where
  "in_int64 k \<longleftrightarrow> - (2 ^ 63) \<le> k \<and> k < 2 ^ 63"

fun sum_step :: "int \<Rightarrow> int64 list \<Rightarrow> int option" where
  "sum_step acc [] = Some acc"
| "sum_step acc (x # xs) =
     (if in_int64 (acc + sint x) then sum_step (acc + sint x) xs else None)"

definition sql_SUM :: "int64 list \<Rightarrow> error + int64 option" where
  "sql_SUM xs =
     (if xs = [] then Inr None
      else case sum_step 0 xs of
             None \<Rightarrow> Inl (Errorf ''integer overflow'')
           | Some k \<Rightarrow> Inr (Some (word_of_int k)))"

fun sql_MAX :: "int64 list \<Rightarrow> int64 option" where
  "sql_MAX [] = None"
| "sql_MAX (x # xs) =
     (case sql_MAX xs of None \<Rightarrow> Some x | Some m \<Rightarrow> Some (if sint m < sint x then x else m))"

definition wrap_error :: "string \<Rightarrow> error \<Rightarrow> error" where
  "wrap_error ctx err = (case err of Errorf msg \<Rightarrow> Errorf (ctx @ '': '' @ msg))"

text \<open>
  \<^verbatim>\<open>
  SELECT COALESCE(SUM(s.value_num), 0), COALESCE(MAX(s.value_denom), 100)
  FROM splits s JOIN transactions t ON s.tx_guid = t.guid
  WHERE s.account_guid = ?  [AND t.post_date <= ?]
  \<close>
\<close>

definition account_splits :: "DB \<Rightarrow> string \<Rightarrow> (split_row \<times> transaction_row) list" where
  "account_splits db accountGUID =
     [(s, t). s \<leftarrow> splits db, sr_account_guid s = accountGUID,
              t \<leftarrow> transactions db, sr_tx_guid s = tr_guid t]"

definition posted_by :: "string \<Rightarrow> split_row \<times> transaction_row \<Rightarrow> bool" where
  "posted_by endDate r \<longleftrightarrow> endDate = [] \<or> tr_post_date (snd r) \<le> end_of_day endDate"

definition balance_rows :: "DB \<Rightarrow> string \<Rightarrow> string \<Rightarrow> (split_row \<times> transaction_row) list" where
  "balance_rows db accountGUID endDate = filter (posted_by endDate) (account_splits db accountGUID)"

definition GetBalanceForAccount :: "DB \<Rightarrow> string \<Rightarrow> string \<Rightarrow> error + (int64 \<times> int64)" where
  "GetBalanceForAccount db accountGUID endDate =
     (let rows = balance_rows db accountGUID endDate
      in case sql_SUM (map (sr_value_num \<circ> fst) rows) of
           Inl err \<Rightarrow> Inl (wrap_error ''query balance'' err)
         | Inr num \<Rightarrow>
             Inr (case num of None \<Rightarrow> 0 | Some v \<Rightarrow> v,
                  case sql_MAX (map (sr_value_denom \<circ> fst) rows) of
                    None \<Rightarrow> 100 | Some d \<Rightarrow> d))"

definition GetBalance :: "'t platform \<Rightarrow> DB \<Rightarrow> string \<Rightarrow> string \<Rightarrow> error + string" where
  "GetBalance pf db accountName date =
     (case resolveAccount pf db accountName of
        Inl err \<Rightarrow> Inl err
      | Inr account \<Rightarrow>
          (case GetBalanceForAccount db (acc_GUID account) date of
             Inl err \<Rightarrow> Inl err
           | Inr (num, denom) \<Rightarrow>
               let balance = FormatDecimal num denom;
                   dateLabel = (if date \<noteq> [] then ''as of '' @ date else ''current'')
               in Inr (''Account: '' @ acc_Name account @ '' ['' @ acc_AccountType account @
                       '']'' @ nl @ ''Balance ('' @ dateLabel @ ''): '' @ balance @ '' EUR'')))"


section \<open>The ledger store: expense splits by account\<close>

text \<open>
  \<^verbatim>\<open>
  SELECT s.value_num, s.value_denom, a.guid, a.name, a.parent_guid
  FROM splits s
  JOIN transactions t ON s.tx_guid = t.guid
  JOIN accounts a ON s.account_guid = a.guid
  WHERE a.account_type = 'EXPENSE' AND t.post_date >= ? AND t.post_date <= ?
  \<close>
  The query has no \<^verbatim>\<open>ORDER BY\<close>; the rows come in the order of the join.
\<close>

definition expense_rows :: "DB \<Rightarrow> string \<Rightarrow> string \<Rightarrow> (split_row \<times> account_row) list" where
  "expense_rows db startDate endDate =
     [(s, a).
        s \<leftarrow> splits db,
        t \<leftarrow> transactions db, sr_tx_guid s = tr_guid t,
        start_of_day startDate \<le> tr_post_date t, tr_post_date t \<le> end_of_day endDate,
        a \<leftarrow> accounts db, sr_account_guid s = ar_guid a,
        ar_account_type a = ''EXPENSE'']"

text \<open>
  A Go map is an association list with one entry for each key; \<open>map_update\<close> is
  \<^verbatim>\<open>m[k] = v\<close> and \<open>map_get\<close> is \<^verbatim>\<open>m[k]\<close>, the zero value of the type for a missing key.
  The order of the list is not the order of \<^verbatim>\<open>range\<close>, which Go leaves open and varies
  from run to run: a loop whose result depends on it takes the order as a parameter.
\<close>

definition map_get :: "('k \<times> 'v) list \<Rightarrow> 'k \<Rightarrow> 'v \<Rightarrow> 'v" where
  "map_get m k zero = (case map_of m k of None \<Rightarrow> zero | Some v \<Rightarrow> v)"

definition expense_split :: "split_row \<Rightarrow> account_row \<Rightarrow> Split" where
  "expense_split s a =
     \<lparr> sp_GUID = [], sp_TxGUID = [], sp_AccountGUID = ar_guid a, sp_AccountName = ar_name a,
       sp_Memo = [], sp_ValueNum = sr_value_num s, sp_ValueDenom = sr_value_denom s \<rparr>"

definition scan_expense_error :: error where
  "scan_expense_error =
     Errorf (''scan expense split: sql: Scan error on column index 4, name '' @ [CHR 0x22] @
             ''parent_guid'' @ [CHR 0x22] @ '': converting NULL to string is unsupported'')"

type_synonym expense_maps =
  "(string \<times> Split list) list \<times> (string \<times> string) list \<times> (string \<times> string) list"

text \<open>
  \<^verbatim>\<open>
  byAccount[accGUID] = append(byAccount[accGUID], s)
  names[accGUID] = accName
  parents[accGUID] = parentGUID
  \<close>
  \<^verbatim>\<open>a.parent_guid\<close> is scanned into a Go string with no \<^verbatim>\<open>COALESCE\<close>: \<^verbatim>\<open>NULL\<close> is a scan
  error.
\<close>

fun collect_expenses :: "(split_row \<times> account_row) list \<Rightarrow> expense_maps \<Rightarrow> error + expense_maps" where
  "collect_expenses [] st = Inr st"
| "collect_expenses ((s, a) # rows) (byAccount, names, parents) =
     (case ar_parent_guid a of
        None \<Rightarrow> Inl scan_expense_error
      | Some parentGUID \<Rightarrow>
          collect_expenses rows
            (map_update (ar_guid a) (map_get byAccount (ar_guid a) [] @ [expense_split s a])
               byAccount,
             map_update (ar_guid a) (ar_name a) names,
             map_update (ar_guid a) parentGUID parents))"

definition GetExpenseSplits ::
  "DB \<Rightarrow> string \<Rightarrow> string \<Rightarrow> string \<Rightarrow>
   error + ((string \<times> Split list) list \<times> (string \<times> string) list)" where
  "GetExpenseSplits db startDate endDate parentAccountGUID =
     (case collect_expenses (expense_rows db startDate endDate) ([], [], []) of
        Inl err \<Rightarrow> Inl err
      | Inr (byAccount, names, parents) \<Rightarrow>
          Inr (if parentAccountGUID \<noteq> []
               then filter (\<lambda>e. map_get parents (fst e) [] = parentAccountGUID) byAccount
               else byAccount,
               names))"

section \<open>The service: spending by category\<close>

record catEntry =
  cat_Name :: string
  cat_Total :: int64
  cat_Denom :: int64
  cat_Count :: int

text \<open>
  \<^verbatim>\<open>
  var total int64
  var denom int64 = 100
  for _, sp := range splits { total += sp.ValueNum; denom = sp.ValueDenom }
  categories = append(categories, catEntry{Name: names[guid], Total: total,
      Denom: denom, Count: len(splits)})
  \<close>
\<close>

definition add_split :: "Split \<Rightarrow> int64 \<times> int64 \<Rightarrow> int64 \<times> int64" where
  "add_split sp st = (fst st + sp_ValueNum sp, sp_ValueDenom sp)"

definition category :: "(string \<times> string) list \<Rightarrow> string \<times> Split list \<Rightarrow> catEntry" where
  "category names e =
     (let st = fold add_split (snd e) (0, 100)
      in \<lparr> cat_Name = map_get names (fst e) [], cat_Total = fst st, cat_Denom = snd st,
           cat_Count = int (length (snd e)) \<rparr>)"

text \<open>
  \<^verbatim>\<open>sort.Slice(categories, func(i, j int) bool { return categories[i].Total > categories[j].Total })\<close>.
  Go's \<^verbatim>\<open>sort.Slice\<close> is pattern-defeating quicksort, whose first step is
  \<^verbatim>\<open>
  const maxInsertion = 12
  length := b - a
  if length <= maxInsertion { insertionSort_func(data, a, b); return }
  \<close>
  with the insertion sort
  \<^verbatim>\<open>
  for i := a + 1; i < b; i++ {
      for j := i; j > a && data.Less(j, j-1); j-- { data.Swap(j, j-1) }
  }
  \<close>
  \<open>sift\<close> moves the new element down the sorted prefix, which it holds last element
  first. What the library does with a longer slice is the parameter \<open>pdq\<close>: it is not
  code of this repository, and its documentation promises a permutation ordered by the
  comparison and no more (``the sort is not guaranteed to be stable''), which is
  \<open>sorts\<close>.
\<close>

fun sift :: "('a \<Rightarrow> 'a \<Rightarrow> bool) \<Rightarrow> 'a list \<Rightarrow> 'a \<Rightarrow> 'a list" where
  "sift lt [] x = [x]"
| "sift lt (y # ys) x = (if lt x y then y # sift lt ys x else x # y # ys)"

definition insertionSort :: "('a \<Rightarrow> 'a \<Rightarrow> bool) \<Rightarrow> 'a list \<Rightarrow> 'a list" where
  "insertionSort lt xs = rev (fold (\<lambda>x prefix. sift lt prefix x) xs [])"

type_synonym 'a sorter = "('a \<Rightarrow> 'a \<Rightarrow> bool) \<Rightarrow> 'a list \<Rightarrow> 'a list"

definition sort_Slice :: "'a sorter \<Rightarrow> ('a \<Rightarrow> 'a \<Rightarrow> bool) \<Rightarrow> 'a list \<Rightarrow> 'a list" where
  "sort_Slice pdq lt xs = (if length xs \<le> 12 then insertionSort lt xs else pdq lt xs)"

definition sorts :: "'a sorter \<Rightarrow> ('a \<Rightarrow> 'a \<Rightarrow> bool) \<Rightarrow> bool" where
  "sorts pdq lt \<longleftrightarrow>
     (\<forall>xs. mset (pdq lt xs) = mset xs \<and> sorted_wrt (\<lambda>a b. \<not> lt b a) (pdq lt xs))"

definition by_total_desc :: "catEntry \<Rightarrow> catEntry \<Rightarrow> bool" where
  "by_total_desc a b \<longleftrightarrow> sint (cat_Total a) > sint (cat_Total b)"

type_synonym range_order = "(string \<times> Split list) list \<Rightarrow> (string \<times> Split list) list"

text \<open>An order of \<^verbatim>\<open>range\<close> visits every entry of the map once.\<close>

definition visits_all :: "range_order \<Rightarrow> bool" where
  "visits_all ro \<longleftrightarrow> (\<forall>m. mset (ro m) = mset m)"

definition spending_categories ::
  "range_order \<Rightarrow> catEntry sorter \<Rightarrow> (string \<times> Split list) list \<Rightarrow> (string \<times> string) list \<Rightarrow>
   catEntry list" where
  "spending_categories ro pdq byAccount names =
     sort_Slice pdq by_total_desc (map (category names) (ro byAccount))"

text \<open>
  \<^verbatim>\<open>
  fmt.Fprintf(&sb, "Spending by category (%s to %s):\n\n", startDate, endDate)
  var grandTotal int64
  var grandDenom int64 = 100
  for _, cat := range categories {
      fmt.Fprintf(&sb, "  %-30s %10s EUR  (%d transactions)\n",
          cat.Name, FormatDecimal(cat.Total, cat.Denom), cat.Count)
      grandTotal += cat.Total
      grandDenom = cat.Denom
  }
  fmt.Fprintf(&sb, "\n  %-30s %10s EUR\n", "TOTAL", FormatDecimal(grandTotal, grandDenom))
  \<close>
\<close>

definition category_row :: "string \<Rightarrow> string \<Rightarrow> int \<Rightarrow> string" where
  "category_row name amount n =
     ''  '' @ pad_right 30 name @ '' '' @ pad_left 10 amount @ '' EUR  ('' @ fmt_d n @
     '' transactions)'' @ nl"

definition total_row :: "string \<Rightarrow> string" where
  "total_row amount = nl @ ''  '' @ pad_right 30 ''TOTAL'' @ '' '' @ pad_left 10 amount @ '' EUR'' @ nl"

definition spending_header :: "string \<Rightarrow> string \<Rightarrow> string" where
  "spending_header startDate endDate =
     ''Spending by category ('' @ startDate @ '' to '' @ endDate @ ''):'' @ nl @ nl"

definition print_category :: "catEntry \<Rightarrow> string \<times> int64 \<times> int64 \<Rightarrow> string \<times> int64 \<times> int64" where
  "print_category cat st =
     (case st of (sb, grandTotal, grandDenom) \<Rightarrow>
        (sb @ category_row (cat_Name cat) (FormatDecimal (cat_Total cat) (cat_Denom cat))
                (cat_Count cat),
         grandTotal + cat_Total cat,
         cat_Denom cat))"

definition spending_report :: "string \<Rightarrow> string \<Rightarrow> catEntry list \<Rightarrow> string" where
  "spending_report startDate endDate categories =
     (case fold print_category categories (spending_header startDate endDate, 0, 100) of
        (sb, grandTotal, grandDenom) \<Rightarrow> sb @ total_row (FormatDecimal grandTotal grandDenom))"

text \<open>
  \<^verbatim>\<open>
  now := time.Now()
  if startDate == "" { startDate = now.Format("2006-01") + "-01" }
  if endDate == "" { endDate = now.Format("2006-01-02") }
  var parentGUID string
  if parentAccount != "" {
      acc, err := s.resolveAccount(ctx, parentAccount)
      if err != nil { return "", err }
      parentGUID = acc.GUID
  }
  \<close>
\<close>

definition spending_start :: "'t platform \<Rightarrow> string \<Rightarrow> string" where
  "spending_start pf startDate =
     (if startDate = [] then time_Format pf (time_Now pf) ''2006-01'' @ ''-01'' else startDate)"

definition spending_end :: "'t platform \<Rightarrow> string \<Rightarrow> string" where
  "spending_end pf endDate =
     (if endDate = [] then time_Format pf (time_Now pf) ''2006-01-02'' else endDate)"

definition resolve_parent :: "'t platform \<Rightarrow> DB \<Rightarrow> string \<Rightarrow> error + string" where
  "resolve_parent pf db parentAccount =
     (if parentAccount \<noteq> []
      then (case resolveAccount pf db parentAccount of
              Inl err \<Rightarrow> Inl err
            | Inr acc \<Rightarrow> Inr (acc_GUID acc))
      else Inr [])"

definition SpendingByCategory ::
  "'t platform \<Rightarrow> range_order \<Rightarrow> catEntry sorter \<Rightarrow> DB \<Rightarrow> string \<Rightarrow> string \<Rightarrow> string \<Rightarrow>
   error + string" where
  "SpendingByCategory pf ro pdq db startDate endDate parentAccount =
     (let startDate' = spending_start pf startDate;
          endDate' = spending_end pf endDate
      in case resolve_parent pf db parentAccount of
           Inl err \<Rightarrow> Inl err
         | Inr parentGUID \<Rightarrow>
             (case GetExpenseSplits db startDate' endDate' parentGUID of
                Inl err \<Rightarrow> Inl err
              | Inr (byAccount, names) \<Rightarrow>
                  if length byAccount = 0
                  then Inr (''No expenses found from '' @ startDate' @ '' to '' @ endDate' @ ''.'')
                  else Inr (spending_report startDate' endDate'
                              (spending_categories ro pdq byAccount names))))"

section \<open>The ledger store: monthly totals\<close>

text \<open>
  \<^verbatim>\<open>
  SELECT strftime('%Y-%m', t.post_date) as month, a.account_type,
         SUM(s.value_num) as total, MAX(s.value_denom) as denom
  FROM splits s
  JOIN transactions t ON s.tx_guid = t.guid
  JOIN accounts a ON s.account_guid = a.guid
  WHERE a.account_type IN ('INCOME', 'EXPENSE') AND t.post_date >= ? AND t.post_date <= ?
  GROUP BY month, a.account_type
  ORDER BY month
  \<close>
  One row for each pair of month and account type among the joined rows. The groups
  are ordered by month and, within a month, by account type, the order in which SQLite
  forms them (SQL leaves the order within a month open). A \<^verbatim>\<open>NULL\<close> month, which
  \<^verbatim>\<open>strftime\<close> gives for a text it does not read as a date, sorts first and fails the scan
  into a Go string.
\<close>

record monthly_row =
  mr_Month :: string
  mr_AccType :: string
  mr_Total :: int64
  mr_Denom :: int64

type_synonym month_key = "string option \<times> string"

definition monthly_source :: "'t platform \<Rightarrow> DB \<Rightarrow> string \<Rightarrow> string \<Rightarrow> (month_key \<times> split_row) list" where
  "monthly_source pf db startDate endDate =
     [((sql_strftime pf ''%Y-%m'' (tr_post_date t), ar_account_type a), s).
        s \<leftarrow> splits db,
        t \<leftarrow> transactions db, sr_tx_guid s = tr_guid t,
        start_of_day startDate \<le> tr_post_date t, tr_post_date t \<le> end_of_day endDate,
        a \<leftarrow> accounts db, sr_account_guid s = ar_guid a,
        ar_account_type a = ''INCOME'' \<or> ar_account_type a = ''EXPENSE'']"

definition month_key_le :: "month_key \<Rightarrow> month_key \<Rightarrow> bool" where
  "month_key_le k1 k2 \<longleftrightarrow>
     (case (fst k1, fst k2) of
        (None, None) \<Rightarrow> snd k1 \<le> snd k2
      | (None, Some m2) \<Rightarrow> True
      | (Some m1, None) \<Rightarrow> False
      | (Some m1, Some m2) \<Rightarrow> m1 < m2 \<or> (m1 = m2 \<and> snd k1 \<le> snd k2))"

fun insert_key :: "month_key \<Rightarrow> month_key list \<Rightarrow> month_key list" where
  "insert_key k [] = [k]"
| "insert_key k (x # xs) = (if month_key_le k x then k # x # xs else x # insert_key k xs)"

definition month_groups :: "(month_key \<times> split_row) list \<Rightarrow> month_key list" where
  "month_groups src = foldr insert_key (remdups (map fst src)) []"

definition scan_monthly_error :: error where
  "scan_monthly_error =
     Errorf (''scan monthly total: sql: Scan error on column index 0, name '' @ [CHR 0x22] @
             ''month'' @ [CHR 0x22] @ '': converting NULL to string is unsupported'')"

fun aggregate_groups :: "(month_key \<times> split_row) list \<Rightarrow> month_key list \<Rightarrow> error + monthly_row list" where
  "aggregate_groups src [] = Inr []"
| "aggregate_groups src (k # ks) =
     (let grp = map snd (filter (\<lambda>r. fst r = k) src)
      in case sql_SUM (map sr_value_num grp) of
           Inl err \<Rightarrow> Inl err
         | Inr tot \<Rightarrow>
             (case fst k of
                None \<Rightarrow> Inl scan_monthly_error
              | Some month \<Rightarrow>
                  (case aggregate_groups src ks of
                     Inl err \<Rightarrow> Inl err
                   | Inr rows \<Rightarrow>
                       Inr (\<lparr> mr_Month = month, mr_AccType = snd k,
                              mr_Total = (case tot of None \<Rightarrow> 0 | Some v \<Rightarrow> v),
                              mr_Denom = (case sql_MAX (map sr_value_denom grp) of
                                            None \<Rightarrow> 0 | Some d \<Rightarrow> d) \<rparr> # rows))))"

definition GetMonthlyIncomeExpenses ::
  "'t platform \<Rightarrow> DB \<Rightarrow> string \<Rightarrow> string \<Rightarrow> error + monthly_row list" where
  "GetMonthlyIncomeExpenses pf db startDate endDate =
     (let src = monthly_source pf db startDate endDate
      in aggregate_groups src (month_groups src))"

section \<open>The service: income and expenses by month\<close>

record monthData =
  md_Income :: int64
  md_Expenses :: int64
  md_Denom :: int64

text \<open>
  \<^verbatim>\<open>
  for _, r := range rows {
      md, exists := byMonth[r.Month]
      if !exists {
          md = &monthData{Denom: 100}
          byMonth[r.Month] = md
          monthOrder = append(monthOrder, r.Month)
      }
      if r.Denom > 0 { md.Denom = r.Denom }
      switch r.AccType {
      case "INCOME":  md.Income = -r.Total
      case "EXPENSE": md.Expenses = r.Total
      }
  }
  sort.Strings(monthOrder)
  \<close>
\<close>

definition apply_row :: "monthly_row \<Rightarrow> monthData \<Rightarrow> monthData" where
  "apply_row r md =
     (let md1 = (if sint (mr_Denom r) > 0 then md \<lparr> md_Denom := mr_Denom r \<rparr> else md)
      in if mr_AccType r = ''INCOME'' then md1 \<lparr> md_Income := - mr_Total r \<rparr>
         else if mr_AccType r = ''EXPENSE'' then md1 \<lparr> md_Expenses := mr_Total r \<rparr>
         else md1)"

definition new_month :: monthData where
  "new_month = \<lparr> md_Income = 0, md_Expenses = 0, md_Denom = 100 \<rparr>"

fun bucket_rows ::
  "monthly_row list \<Rightarrow> (string \<times> monthData) list \<times> string list \<Rightarrow>
   (string \<times> monthData) list \<times> string list" where
  "bucket_rows [] st = st"
| "bucket_rows (r # rows) (byMonth, monthOrder) =
     (case map_of byMonth (mr_Month r) of
        Some md \<Rightarrow>
          bucket_rows rows (map_update (mr_Month r) (apply_row r md) byMonth, monthOrder)
      | None \<Rightarrow>
          bucket_rows rows (map_update (mr_Month r) (apply_row r new_month) byMonth,
                            monthOrder @ [mr_Month r]))"

text \<open>
  \<^verbatim>\<open>
  net := md.Income - md.Expenses
  fmt.Fprintf(&sb, "  %-10s %12s %12s %12s\n", month, FormatDecimal(md.Income, md.Denom),
      FormatDecimal(md.Expenses, md.Denom), FormatDecimal(net, md.Denom))
  \<close>
\<close>

definition month_row :: "string \<Rightarrow> int64 \<Rightarrow> int64 \<Rightarrow> int64 \<Rightarrow> int64 \<Rightarrow> string" where
  "month_row month income expenses net denom =
     ''  '' @ pad_right 10 month @ '' '' @ pad_left 12 (FormatDecimal income denom) @ '' '' @
     pad_left 12 (FormatDecimal expenses denom) @ '' '' @
     pad_left 12 (FormatDecimal net denom) @ nl"

definition month_line :: "string \<Rightarrow> monthData \<Rightarrow> string" where
  "month_line month md =
     (let net = md_Income md - md_Expenses md
      in month_row month (md_Income md) (md_Expenses md) net (md_Denom md))"

definition income_header :: "int \<Rightarrow> string" where
  "income_header months =
     ''Income vs Expenses (last '' @ fmt_d months @ '' months):'' @ nl @ nl @
     ''  '' @ pad_right 10 ''Month'' @ '' '' @ pad_left 12 ''Income'' @ '' '' @
     pad_left 12 ''Expenses'' @ '' '' @ pad_left 12 ''Net'' @ nl @
     ''  '' @ replicate 48 (CHR ''-'') @ nl"

definition income_report :: "int \<Rightarrow> monthly_row list \<Rightarrow> string" where
  "income_report months rows =
     (case bucket_rows rows ([], []) of
        (byMonth, monthOrder) \<Rightarrow>
          income_header months @
          concat (map (\<lambda>month. case map_of byMonth month of
                                  None \<Rightarrow> []
                                | Some md \<Rightarrow> month_line month md)
                      (sort monthOrder)))"

text \<open>
  \<^verbatim>\<open>
  if months <= 0 { months = 6 }
  now := time.Now()
  endDate := now.Format("2006-01-02")
  startDate := now.AddDate(0, -months+1, -now.Day()+1).Format("2006-01-02")
  \<close>
\<close>

definition income_window :: "'t platform \<Rightarrow> int \<Rightarrow> string \<times> string" where
  "income_window pf months =
     (let now = time_Now pf
      in (time_Format pf (time_AddDate pf now 0 (- months + 1) (- time_Day pf now + 1))
            ''2006-01-02'',
          time_Format pf now ''2006-01-02''))"

definition IncomeVsExpenses :: "'t platform \<Rightarrow> DB \<Rightarrow> int \<Rightarrow> error + string" where
  "IncomeVsExpenses pf db months =
     (let months' = (if months \<le> 0 then 6 else months);
          window = income_window pf months'
      in case GetMonthlyIncomeExpenses pf db (fst window) (snd window) of
           Inl err \<Rightarrow> Inl err
         | Inr rows \<Rightarrow> Inr (income_report months' rows))"

text \<open>
  What the aggregation stores for a month: the total of its row of a given account
  type, zero when it has none, and the denominator of its last row with a positive one,
  100 when it has none.
\<close>

definition stored_total :: "monthly_row list \<Rightarrow> string \<Rightarrow> string \<Rightarrow> int64" where
  "stored_total rows month ty =
     (case filter (\<lambda>r. mr_Month r = month \<and> mr_AccType r = ty) rows of
        [] \<Rightarrow> 0
      | r # rs \<Rightarrow> mr_Total (last (r # rs)))"

definition month_denom :: "monthly_row list \<Rightarrow> string \<Rightarrow> int64" where
  "month_denom rows month =
     (case filter (\<lambda>r. mr_Month r = month \<and> sint (mr_Denom r) > 0) rows of
        [] \<Rightarrow> 100
      | r # rs \<Rightarrow> mr_Denom (last (r # rs)))"

definition month_rows :: "monthly_row list \<Rightarrow> string \<Rightarrow> monthly_row list" where
  "month_rows rows month = filter (\<lambda>r. mr_Month r = month) rows"

text \<open>
  No two categories of a report have the same total. The condition is on the store and
  the arguments: it reads the map that \<open>GetExpenseSplits\<close> returns for them.
\<close>

definition no_ties :: "'t platform \<Rightarrow> DB \<Rightarrow> string \<Rightarrow> string \<Rightarrow> string \<Rightarrow> bool" where
  "no_ties pf db startDate endDate parentAccount =
     (case resolve_parent pf db parentAccount of
        Inl err \<Rightarrow> True
      | Inr parentGUID \<Rightarrow>
          (case GetExpenseSplits db (spending_start pf startDate) (spending_end pf endDate)
                  parentGUID of
             Inl err \<Rightarrow> True
           | Inr res \<Rightarrow> distinct (map (\<lambda>e. cat_Total (category (snd res) e)) (fst res))))"

section \<open>The seed ledger of service\_test.go\<close>

text \<open>
  The rows that \<^verbatim>\<open>setupTestDB\<close> inserts: a root, three top-level accounts, four leaves,
  and five two-leg transactions.
\<close>

definition mk_account :: "string \<Rightarrow> string \<Rightarrow> string \<Rightarrow> string option \<Rightarrow> string \<Rightarrow> account_row" where
  "mk_account g n t p d =
     \<lparr> ar_guid = g, ar_name = n, ar_account_type = t, ar_parent_guid = p,
       ar_description = Some d, ar_hidden = 0, ar_placeholder = 0 \<rparr>"

definition mk_tx :: "string \<Rightarrow> string \<Rightarrow> string \<Rightarrow> transaction_row" where
  "mk_tx g d desc = \<lparr> tr_guid = g, tr_post_date = d, tr_description = desc \<rparr>"

definition mk_split :: "string \<Rightarrow> string \<Rightarrow> string \<Rightarrow> int64 \<Rightarrow> int64 \<Rightarrow> split_row" where
  "mk_split g t a n d =
     \<lparr> sr_guid = g, sr_tx_guid = t, sr_account_guid = a, sr_memo = Some [],
       sr_value_num = n, sr_value_denom = d \<rparr>"

definition row_root :: account_row where
  "row_root = mk_account ''root'' ''Root Account'' ''ROOT'' None []"

definition row_assets :: account_row where
  "row_assets = mk_account ''assets'' ''Assets'' ''ASSET'' (Some ''root'') []"

definition row_expenses :: account_row where
  "row_expenses = mk_account ''expenses'' ''Expenses'' ''EXPENSE'' (Some ''root'') []"

definition row_income :: account_row where
  "row_income = mk_account ''income'' ''Income'' ''INCOME'' (Some ''root'') []"

definition row_checking :: account_row where
  "row_checking =
     mk_account ''checking'' ''Checking'' ''BANK'' (Some ''assets'') ''Main checking account''"

definition row_groceries :: account_row where
  "row_groceries = mk_account ''groceries'' ''Groceries'' ''EXPENSE'' (Some ''expenses'') []"

definition row_restaurant :: account_row where
  "row_restaurant = mk_account ''restaurant'' ''Restaurant'' ''EXPENSE'' (Some ''expenses'') []"

definition row_salary :: account_row where
  "row_salary = mk_account ''salary'' ''Salary'' ''INCOME'' (Some ''income'') []"

definition seed_accounts :: "account_row list" where
  "seed_accounts =
     [ row_root, row_assets, row_expenses, row_income,
       row_checking, row_groceries, row_restaurant, row_salary ]"

definition seed_transactions :: "transaction_row list" where
  "seed_transactions =
     [ mk_tx ''tx1'' ''2025-01-15 00:00:00'' ''January salary'',
       mk_tx ''tx2'' ''2025-01-20 00:00:00'' ''Supermarket'',
       mk_tx ''tx3'' ''2025-02-05 00:00:00'' ''Market'',
       mk_tx ''tx4'' ''2025-01-25 00:00:00'' ''Pizza place'',
       mk_tx ''tx5'' ''2025-02-15 00:00:00'' ''February salary'' ]"

definition seed_splits :: "split_row list" where
  "seed_splits =
     [ mk_split ''sp1a'' ''tx1'' ''checking'' 300000 100,
       mk_split ''sp1b'' ''tx1'' ''salary'' (- 300000) 100,
       mk_split ''sp2a'' ''tx2'' ''checking'' (- 8550) 100,
       mk_split ''sp2b'' ''tx2'' ''groceries'' 8550 100,
       mk_split ''sp3a'' ''tx3'' ''checking'' (- 4200) 100,
       mk_split ''sp3b'' ''tx3'' ''groceries'' 4200 100,
       mk_split ''sp4a'' ''tx4'' ''checking'' (- 2500) 100,
       mk_split ''sp4b'' ''tx4'' ''restaurant'' 2500 100,
       mk_split ''sp5a'' ''tx5'' ''checking'' 300000 100,
       mk_split ''sp5b'' ''tx5'' ''salary'' (- 300000) 100 ]"

definition seed_db :: DB where
  "seed_db = \<lparr> accounts = seed_accounts, transactions = seed_transactions,
               splits = seed_splits \<rparr>"

text \<open>
  A ledger with a three-leg transaction: \<open>txA\<close> pays groceries and a restaurant from
  the checking account on 2 March, \<open>txB\<close> a restaurant on 1 March.
\<close>

definition three_leg_db :: DB where
  "three_leg_db =
     \<lparr> accounts = seed_accounts,
       transactions =
         [ mk_tx ''txA'' ''2025-03-02 00:00:00'' ''Dinner and shopping'',
           mk_tx ''txB'' ''2025-03-01 00:00:00'' ''Lunch'' ],
       splits =
         [ mk_split ''a1'' ''txA'' ''checking'' (- 10000) 100,
           mk_split ''a2'' ''txA'' ''groceries'' 6000 100,
           mk_split ''a3'' ''txA'' ''restaurant'' 4000 100,
           mk_split ''b1'' ''txB'' ''checking'' (- 2500) 100,
           mk_split ''b2'' ''txB'' ''restaurant'' 2500 100 ] \<rparr>"

text \<open>
  A ledger with a lonely transaction: \<open>txL\<close> has one split, on the checking account,
  and \<open>txB\<close> is an ordinary two-leg transaction.
\<close>

definition lonely_db :: DB where
  "lonely_db =
     \<lparr> accounts = seed_accounts,
       transactions =
         [ mk_tx ''txL'' ''2025-03-02 00:00:00'' ''Opening balance'',
           mk_tx ''txB'' ''2025-03-01 00:00:00'' ''Lunch'' ],
       splits =
         [ mk_split ''l1'' ''txL'' ''checking'' 50000 100,
           mk_split ''b1'' ''txB'' ''checking'' (- 2500) 100,
           mk_split ''b2'' ''txB'' ''restaurant'' 2500 100 ] \<rparr>"

text \<open>
  A stand-in platform for closed examples. A time is its text in the stored layout
  \<open>YYYY-MM-DD HH:MM:SS\<close>, formatting cuts the text to the length of the layout, and
  \<^verbatim>\<open>strftime('%Y-%m', s)\<close> is the first seven characters of such a text. The clock reads
  noon of 1 March 2025, and \<^verbatim>\<open>AddDate\<close> is the start of the year before, which is what
  the examples need of it. The examples are ASCII texts and do not reach the Unicode
  tables, which are left empty: no letter outside ASCII has another case.
\<close>

definition example_platform :: "string platform" where
  "example_platform =
     \<lparr> time_Parse = (\<lambda>layout s. if length s = length layout then Some s else None),
       time_Format = (\<lambda>t layout. take (length layout) t),
       time_Zero = ''0001-01-01 00:00:00'',
       time_Now = ''2025-03-01 12:00:00'',
       time_AddDate = (\<lambda>t y m d. ''2024-01-01 12:00:00''),
       time_Day = (\<lambda>t. 1),
       sql_strftime = (\<lambda>fmt s. if length s = 19 then Some (take 7 s) else None),
       unicode_ToLower = ascii_lower,
       unicode_EqualFold = (\<lambda>s t. ascii_lower s = ascii_lower t) \<rparr>"

text \<open>
  A ledger with a tie: groceries and a restaurant, 25.00 each, in February 2025.
\<close>

definition tie_db :: DB where
  "tie_db =
     \<lparr> accounts = seed_accounts,
       transactions =
         [ mk_tx ''t1'' ''2025-02-01 00:00:00'' ''Market'',
           mk_tx ''t2'' ''2025-02-02 00:00:00'' ''Lunch'' ],
       splits =
         [ mk_split ''t1a'' ''t1'' ''checking'' (- 2500) 100,
           mk_split ''t1b'' ''t1'' ''groceries'' 2500 100,
           mk_split ''t2a'' ''t2'' ''checking'' (- 2500) 100,
           mk_split ''t2b'' ''t2'' ''restaurant'' 2500 100 ] \<rparr>"

text \<open>
  A ledger with two denominators in one month: a salary of 3000.00 in hundredths and
  groceries of 5.000 in thousandths, both in February 2025.
\<close>

definition mixed_db :: DB where
  "mixed_db =
     \<lparr> accounts = seed_accounts,
       transactions =
         [ mk_tx ''m1'' ''2025-02-15 00:00:00'' ''February salary'',
           mk_tx ''m2'' ''2025-02-20 00:00:00'' ''Market'' ],
       splits =
         [ mk_split ''m1a'' ''m1'' ''checking'' 300000 100,
           mk_split ''m1b'' ''m1'' ''salary'' (- 300000) 100,
           mk_split ''m2a'' ''m2'' ''checking'' (- 5000) 1000,
           mk_split ''m2b'' ''m2'' ''groceries'' 5000 1000 ] \<rparr>"

text \<open>
  A ledger in thousandths: groceries of 1.005 and a restaurant bill of 1.006, in
  February 2025.
\<close>

definition thousandths_db :: DB where
  "thousandths_db =
     \<lparr> accounts = seed_accounts,
       transactions =
         [ mk_tx ''k1'' ''2025-02-01 00:00:00'' ''Market'',
           mk_tx ''k2'' ''2025-02-02 00:00:00'' ''Lunch'' ],
       splits =
         [ mk_split ''k1a'' ''k1'' ''checking'' (- 1005) 1000,
           mk_split ''k1b'' ''k1'' ''groceries'' 1005 1000,
           mk_split ''k2a'' ''k2'' ''checking'' (- 1006) 1000,
           mk_split ''k2b'' ''k2'' ''restaurant'' 1006 1000 ] \<rparr>"

text \<open>
  A ledger with two large amounts in hundredths, \<open>2\<^sup>6\<^sup>2\<close> and \<open>2\<^sup>6\<^sup>2 + 1\<close>, in February
  2025. Each is a value of the column; their sum is not.
\<close>

definition large_db :: DB where
  "large_db =
     \<lparr> accounts = seed_accounts,
       transactions =
         [ mk_tx ''g1'' ''2025-02-01 00:00:00'' ''Market'',
           mk_tx ''g2'' ''2025-02-02 00:00:00'' ''Lunch'' ],
       splits =
         [ mk_split ''g1a'' ''g1'' ''checking'' (- 4611686018427387904) 100,
           mk_split ''g1b'' ''g1'' ''groceries'' 4611686018427387904 100,
           mk_split ''g2a'' ''g2'' ''checking'' (- 4611686018427387905) 100,
           mk_split ''g2b'' ''g2'' ''restaurant'' 4611686018427387905 100 ] \<rparr>"

text \<open>
  A ledger with an account name outside ASCII: \<open>Ecole\<close> written with an acute accent
  on the capital, in UTF-8 the bytes \<^verbatim>\<open>C3 89\<close> followed by \<open>cole\<close>; and a platform whose
  Unicode table has that one letter, which it lowers to the bytes \<^verbatim>\<open>C3 A9\<close>, as Go does.
\<close>

definition Ecole :: string where
  "Ecole = [CHR 0xC3, CHR 0x89] @ ''cole''"

fun lower_E_acute :: "string \<Rightarrow> string" where
  "lower_E_acute (a # b # s) =
     (if a = CHR 0xC3 \<and> b = CHR 0x89 then a # CHR 0xA9 # lower_E_acute s
      else a # lower_E_acute (b # s))"
| "lower_E_acute s = s"

definition latin_platform :: "string platform" where
  "latin_platform =
     example_platform
       \<lparr> unicode_ToLower := (\<lambda>s. lower_E_acute (ascii_lower s)),
         unicode_EqualFold :=
           (\<lambda>s t. lower_E_acute (ascii_lower s) = lower_E_acute (ascii_lower t)) \<rparr>"

definition ecole_db :: DB where
  "ecole_db =
     \<lparr> accounts =
         [ row_root, row_expenses,
           mk_account ''ecole'' Ecole ''EXPENSE'' (Some ''expenses'') ''School fees'' ],
       transactions = [],
       splits = [] \<rparr>"

section \<open>Properties of the monetary rendering\<close>

lemma sint_word_of_int_id:
  "- (2 ^ 63) \<le> k \<Longrightarrow> k < 2 ^ 63 \<Longrightarrow> sint (word_of_int k :: int64) = k"
  by (simp add: sint_sbintrunc' signed_take_bit_int_eq_self)

lemma sint_bounds64: "- (2 ^ 63) \<le> sint (x :: int64)" "sint (x :: int64) < 2 ^ 63"
  using sint_ge [of x] sint_lt [of x] by simp_all

lemma sint_neg64:
  assumes "sint (x :: int64) \<noteq> - (2 ^ 63)"
  shows "sint (- x) = - sint x"
proof -
  have "- (2 ^ 63) \<le> - sint x" "- sint x < 2 ^ 63"
    using sint_bounds64 [of x] assms by linarith+
  then show ?thesis
    by (simp add: sint_word_minus signed_take_bit_int_eq_self)
qed

lemma sint_abs64:
  assumes "sint (x :: int64) \<noteq> - (2 ^ 63)"
  shows "sint (if sint x < 0 then - x else x) = \<bar>sint x\<bar>"
  using sint_neg64 [OF assms] by simp

lemma sdiv_nonneg: "0 \<le> n \<Longrightarrow> 0 < d \<Longrightarrow> (n::int) sdiv d = n div d"
  by (cases "n = 0") (simp_all add: signed_divide_int_def)

lemma smod_nonneg: "0 \<le> n \<Longrightarrow> 0 < d \<Longrightarrow> (n::int) smod d = n mod d"
  by (cases "n = 0") (simp_all add: signed_modulo_int_def)

lemma FormatDecimal_meets_spec:
  assumes "fmt_range num denom"
  shows "FormatDecimal num denom = FormatDecimal_spec (sint num) (sint denom)"
proof -
  define n where "n = \<bar>sint num\<bar>"
  define d where "d = sint denom"
  from assms have d: "0 < d" and nm: "sint num \<noteq> - (2 ^ 63)" and fr: "(n mod d) * 100 < 2 ^ 63"
    by (simp_all add: fmt_range_def n_def d_def)
  have n0: "0 \<le> n" by (simp add: n_def)
  have nb: "n < 2 ^ 63" using sint_bounds64 [of num] nm by (simp add: n_def)
  have dz: "denom \<noteq> 0" using d by (auto simp: d_def)
  define num' where "num' = (if sint num < 0 then - num else num)"
  have sn: "sint num' = n" unfolding num'_def n_def by (rule sint_abs64 [OF nm])
  have q0: "0 \<le> n div d" using n0 d by (simp add: pos_imp_zdiv_nonneg_iff)
  have qle: "n div d \<le> n" using zdiv_mono2 [of n 1 d] n0 d by simp
  have whole: "sint (go_quo num' denom) = n div d"
    unfolding go_quo_def sn d_def [symmetric]
    using n0 d q0 qle nb by (simp add: sdiv_nonneg sint_word_of_int_id)
  have r0: "0 \<le> n mod d" and rd: "n mod d < d" using d by simp_all
  have db: "d < 2 ^ 63" using sint_bounds64 [of denom] by (simp add: d_def)
  have rem: "sint (go_rem num' denom) = n mod d"
    unfolding go_rem_def sn d_def [symmetric]
    using n0 d r0 rd db by (simp add: smod_nonneg sint_word_of_int_id)
  have scaled: "sint (go_rem num' denom * 100) = (n mod d) * 100"
    using r0 fr by (simp add: sint_word_mult rem signed_take_bit_int_eq_self)
  have f0: "0 \<le> (n mod d) * 100 div d" using r0 d by (simp add: pos_imp_zdiv_nonneg_iff)
  have fle: "(n mod d) * 100 div d \<le> (n mod d) * 100"
    using zdiv_mono2 [of "(n mod d) * 100" 1 d] r0 d by simp
  have frac: "sint (go_quo (go_rem num' denom * 100) denom) = (n mod d) * 100 div d"
    unfolding go_quo_def scaled d_def [symmetric]
    using r0 d f0 fle fr by (simp add: sdiv_nonneg sint_word_of_int_id)
  show ?thesis
    using dz d q0 f0 whole frac
    by (simp add: FormatDecimal_def FormatDecimal_spec_def Let_def num'_def [symmetric]
        fmt_d_def fmt_02d_def n_def [symmetric] d_def [symmetric])
qed

lemma div_same_ratio:
  fixes a b c e :: int
  assumes "0 < b" "0 < e" "a * e = c * b"
  shows "a div b = c div e"
proof -
  have "a div b = (a * e) div (b * e)" using assms(2) by (simp add: div_mult_mult2)
  also have "\<dots> = (c * b) div (e * b)" using assms(3) by (simp add: mult.commute)
  also have "\<dots> = c div e" using assms(1) by (simp add: div_mult_mult2)
  finally show ?thesis .
qed

lemma frac_as_div:
  fixes n d :: int
  assumes "0 < d"
  shows "(n mod d) * 100 div d = (n * 100) div d - 100 * (n div d)"
proof -
  have "(n mod d) * 100 + (100 * (n div d)) * d = (d * (n div d) + n mod d) * 100"
    by (simp only: algebra_simps)
  also have "\<dots> = n * 100" by simp
  finally have "n * 100 = (n mod d) * 100 + (100 * (n div d)) * d" by simp
  then have "(n * 100) div d = ((n mod d) * 100 + (100 * (n div d)) * d) div d" by simp
  also have "\<dots> = (n mod d) * 100 div d + 100 * (n div d)"
    using assms by simp
  finally show ?thesis by simp
qed

lemma FormatDecimal_spec_same_rational:
  assumes "0 < d1" "0 < d2" "n1 * d2 = n2 * d1"
  shows "FormatDecimal_spec n1 d1 = FormatDecimal_spec n2 d2"
proof -
  have sg: "n1 < 0 \<longleftrightarrow> n2 < 0"
    using assms by (metis mult_less_0_iff not_less order_less_imp_le zero_less_mult_iff mult_zero_left less_irrefl)
  have ab: "\<bar>n1\<bar> * d2 = \<bar>n2\<bar> * d1"
    using assms by (metis abs_mult abs_of_pos)
  have w: "\<bar>n1\<bar> div d1 = \<bar>n2\<bar> div d2"
    by (rule div_same_ratio) (use assms ab in auto)
  have "(\<bar>n1\<bar> * 100) * d2 = (\<bar>n2\<bar> * 100) * d1" using ab by (simp add: algebra_simps)
  then have h: "(\<bar>n1\<bar> * 100) div d1 = (\<bar>n2\<bar> * 100) div d2"
    using assms by (intro div_same_ratio) auto
  have f: "(\<bar>n1\<bar> mod d1) * 100 div d1 = (\<bar>n2\<bar> mod d2) * 100 div d2"
    using assms w h by (simp add: frac_as_div)
  show ?thesis using assms sg w f by (simp add: FormatDecimal_spec_def)
qed

text \<open>A sum of 64-bit values is the sum of the integers they denote when that sum fits.\<close>

lemma sint_sum_list:
  "sint (sum_list ws :: int64) = signed_take_bit 63 (sum_list (map sint ws))"
proof (induction ws)
  case Nil
  show ?case by simp
next
  case (Cons w ws)
  have "sint (w + sum_list ws) = signed_take_bit 63 (sint w + sint (sum_list ws))"
    by (simp add: sint_word_ariths)
  also have "\<dots> = signed_take_bit 63 (signed_take_bit 63 (sint w) +
        signed_take_bit 63 (sum_list (map sint ws)))"
    using sint_ge [of w] sint_lt [of w] by (simp add: Cons.IH signed_take_bit_int_eq_self)
  also have "\<dots> = signed_take_bit 63 (sint w + sum_list (map sint ws))"
    by (rule signed_take_bit_add)
  finally show ?case by simp
qed

lemma sint_sum_list_exact:
  assumes "in_int64 (sum_list (map sint ws))"
  shows "sint (sum_list ws :: int64) = sum_list (map sint ws)"
  using assms by (simp add: in_int64_def sint_sum_list signed_take_bit_int_eq_self)

text \<open>Reading a figure back gives the amount that was rendered.\<close>

lemma digit_value_digit_char: "n < 10 \<Longrightarrow> digit_value (digit_char n) = Some n"
proof -
  assume "n < 10"
  then have "n \<in> {0,1,2,3,4,5,6,7,8,9}" by auto
  then show ?thesis by (auto simp: digit_value_def digit_char_def)
qed

lemma digit_char_digit: "n < 10 \<Longrightarrow> digit_char n \<in> set ''0123456789''"
proof -
  assume "n < 10"
  then have "n \<in> {0,1,2,3,4,5,6,7,8,9}" by auto
  then show ?thesis by (auto simp: digit_char_def)
qed

lemma read_digits_append:
  "read_digits acc (xs @ [c]) =
     (case read_digits acc xs of
        None \<Rightarrow> None
      | Some a \<Rightarrow> (case digit_value c of None \<Rightarrow> None | Some v \<Rightarrow> Some (10 * a + v)))"
  by (induction xs arbitrary: acc) (auto split: option.splits)

lemma read_digits_show_nat: "read_digits 0 (show_nat n) = Some n"
proof (induction n rule: show_nat.induct)
  case (1 n)
  show ?case
  proof (cases "n < 10")
    case True
    then show ?thesis by (simp add: show_nat.simps [of n] digit_value_digit_char)
  next
    case False
    with 1 have "read_digits 0 (show_nat (n div 10)) = Some (n div 10)" by simp
    with False show ?thesis
      by (simp add: show_nat.simps [of n] read_digits_append digit_value_digit_char)
  qed
qed

lemma show_nat_not_Nil: "show_nat n \<noteq> []"
  by (simp add: show_nat.simps [of n])

lemma show_nat_digits: "set (show_nat n) \<subseteq> set ''0123456789''"
proof (induction n rule: show_nat.induct)
  case (1 n)
  show ?case
  proof (cases "n < 10")
    case True
    then show ?thesis using digit_char_digit [of n] by (simp add: show_nat.simps [of n])
  next
    case False
    with 1 have "set (show_nat (n div 10)) \<subseteq> set ''0123456789''" by simp
    with False show ?thesis
      using digit_char_digit [of "n mod 10"] by (simp add: show_nat.simps [of n])
  qed
qed

lemma read_nat_show_nat: "read_nat (show_nat n) = Some n"
  by (simp add: read_nat_def show_nat_not_Nil read_digits_show_nat)

lemma length_show_nat_small: "n < 10 \<Longrightarrow> length (show_nat n) = 1"
  by (simp add: show_nat.simps [of n])

lemma length_show_nat_two: "10 \<le> n \<Longrightarrow> n < 100 \<Longrightarrow> length (show_nat n) = 2"
  by (simp add: show_nat.simps [of n] length_show_nat_small)

lemma zero_pad_two:
  assumes "f < 100"
  shows "length (zero_pad 2 (show_nat f)) = 2 \<and> read_nat (zero_pad 2 (show_nat f)) = Some f"
proof (cases "f < 10")
  case True
  then have "zero_pad 2 (show_nat f) = CHR ''0'' # show_nat f"
    by (simp add: zero_pad_def length_show_nat_small numeral_2_eq_2)
  moreover have "digit_value CHR ''0'' = Some 0" by (simp add: digit_value_def)
  ultimately show ?thesis
    using True by (simp add: read_nat_def length_show_nat_small read_digits_show_nat)
next
  case False
  with assms have "zero_pad 2 (show_nat f) = show_nat f"
    by (simp add: zero_pad_def length_show_nat_two)
  with False assms show ?thesis by (simp add: length_show_nat_two read_nat_show_nat)
qed

lemma read_figure_show:
  assumes "f < 100"
  shows "read_figure (show_nat w @ ''.'' @ zero_pad 2 (show_nat f)) = Some (100 * w + f)"
proof -
  define z where "z = zero_pad 2 (show_nat f)"
  have z: "length z = 2" "read_nat z = Some f"
    using zero_pad_two [OF assms] by (simp_all add: z_def)
  have "\<And>x. x \<in> set (show_nat w) \<Longrightarrow> x \<noteq> CHR ''.''"
    using show_nat_digits [of w] by auto
  then have t: "takeWhile (\<lambda>c. c \<noteq> CHR ''.'') (show_nat w @ CHR ''.'' # z) = show_nat w"
    by (simp add: takeWhile_append2)
  have d: "drop (Suc (length (show_nat w))) (show_nat w @ CHR ''.'' # z) = z"
    by simp
  have "read_figure (show_nat w @ CHR ''.'' # z) = Some (100 * w + f)"
    unfolding read_figure_def t d Let_def using z by (simp add: read_nat_show_nat)
  then show ?thesis by (simp add: z_def)
qed

lemma div_less_bound:
  fixes x d :: int
  assumes "0 < d" "x < d * 100"
  shows "x div d < 100"
proof (rule ccontr)
  assume "\<not> x div d < 100"
  then have "100 \<le> x div d" by simp
  then have "d * 100 \<le> d * (x div d)" using assms(1) by (simp add: mult_left_mono)
  moreover have "x = d * (x div d) + x mod d" by simp
  moreover have "0 \<le> x mod d" using assms(1) by simp
  ultimately show False using assms(2) by linarith
qed

lemma hundredths_spec:
  assumes "0 < d"
  shows "hundredths (FormatDecimal_spec n d) =
     Some ((if n < 0 then - 1 else 1) * (\<bar>n\<bar> div d * 100 + (\<bar>n\<bar> mod d) * 100 div d))"
proof -
  define w where "w = nat (\<bar>n\<bar> div d)"
  define f where "f = nat ((\<bar>n\<bar> mod d) * 100 div d)"
  have w: "int w = \<bar>n\<bar> div d" using assms by (simp add: w_def pos_imp_zdiv_nonneg_iff)
  have f0: "0 \<le> (\<bar>n\<bar> mod d) * 100 div d" using assms by (simp add: pos_imp_zdiv_nonneg_iff)
  then have f: "int f = (\<bar>n\<bar> mod d) * 100 div d" by (simp add: f_def)
  have "(\<bar>n\<bar> mod d) * 100 < d * 100" using assms by simp
  then have "(\<bar>n\<bar> mod d) * 100 div d < 100"
    by (rule div_less_bound [OF assms])
  then have fl: "f < 100" using f by linarith
  have nd: "hd (show_nat w) \<noteq> CHR ''-''"
    using show_nat_digits [of w] show_nat_not_Nil [of w] by (cases "show_nat w") auto
  obtain c cs where cs: "show_nat w = c # cs" using show_nat_not_Nil [of w] by (cases "show_nat w") auto
  with nd have c: "c \<noteq> CHR ''-''" by simp
  have fig: "read_figure (show_nat w @ ''.'' @ zero_pad 2 (show_nat f)) = Some (100 * w + f)"
    by (rule read_figure_show [OF fl])
  show ?thesis
  proof (cases "n < 0")
    case True
    then have "FormatDecimal_spec n d = CHR ''-'' # (show_nat w @ ''.'' @ zero_pad 2 (show_nat f))"
      using assms by (simp add: FormatDecimal_spec_def w_def f_def)
    then show ?thesis using True fig w f by (simp add: hundredths_def del: append.simps)
  next
    case False
    then have e: "FormatDecimal_spec n d = show_nat w @ ''.'' @ zero_pad 2 (show_nat f)"
      using assms by (simp add: FormatDecimal_spec_def w_def f_def)
    have "hundredths (show_nat w @ ''.'' @ zero_pad 2 (show_nat f)) =
          map_option int (read_figure (show_nat w @ ''.'' @ zero_pad 2 (show_nat f)))"
      using c by (simp add: hundredths_def cs)
    then show ?thesis using False fig w f e by simp
  qed
qed

lemma hundredths_spec_exact:
  assumes "0 < d" "d dvd 100"
  shows "hundredths (FormatDecimal_spec n d) = Some (n * (100 div d))"
proof -
  from assms(2) obtain k where k: "100 = d * k" by (auto simp: dvd_def)
  have kd: "100 div d = k" using assms(1) nonzero_mult_div_cancel_left [of d k] by (simp add: k)
  have "(\<bar>n\<bar> mod d) * 100 div d = (\<bar>n\<bar> mod d) * k"
    using assms(1) by (simp add: k)
  moreover have "\<bar>n\<bar> div d * 100 + (\<bar>n\<bar> mod d) * k = \<bar>n\<bar> * k"
  proof -
    have "\<bar>n\<bar> * k = (d * (\<bar>n\<bar> div d) + \<bar>n\<bar> mod d) * k" by simp
    also have "\<dots> = \<bar>n\<bar> div d * (d * k) + (\<bar>n\<bar> mod d) * k" by (simp only: algebra_simps)
    finally show ?thesis by (simp add: k)
  qed
  ultimately have "\<bar>n\<bar> div d * 100 + (\<bar>n\<bar> mod d) * 100 div d = \<bar>n\<bar> * k" by simp
  then show ?thesis
    using hundredths_spec [OF assms(1), of n] by (simp add: kd)
qed

lemma fmt_range_dvd:
  assumes "0 < sint d" "sint d dvd 100" "sint n \<noteq> - (2 ^ 63)"
  shows "fmt_range n (d :: int64)"
proof -
  have "sint d \<le> 100" using assms(1,2) by (intro zdvd_imp_le) simp_all
  moreover have "\<bar>sint n\<bar> mod sint d < sint d" using assms(1) by simp
  ultimately have "(\<bar>sint n\<bar> mod sint d) * 100 < 100 * 100" by simp
  then show ?thesis using assms by (simp add: fmt_range_def)
qed

lemma hundredths_FormatDecimal:
  assumes "0 < sint d" "sint d dvd 100" "sint n \<noteq> - (2 ^ 63)"
  shows "hundredths (FormatDecimal n d) = Some (sint n * (100 div sint d))"
  using FormatDecimal_meets_spec [OF fmt_range_dvd [OF assms]]
        hundredths_spec_exact [OF assms(1,2)] by simp

lemmas figure_eval = hundredths_def read_figure_def read_nat_def digit_value_def

lemmas FormatDecimal_eval =
  FormatDecimal_def go_quo_def go_rem_def signed_divide_int_def signed_modulo_int_def
  fmt_d_def fmt_02d_def show_nat.simps zero_pad_def digit_char_def Let_def

text \<open>
  C4, as amended. On every pair in \<open>fmt_range\<close> the function returns the rendering of
  the specification, \<open>[-]W.FF\<close>; a zero denominator gives \<open>0.00\<close>; and two pairs
  in \<open>fmt_range\<close> that denote the same rational give the same string.
\<close>

theorem FormatDecimal_contract:
  "FormatDecimal num 0 = ''0.00'' \<and>
   (fmt_range num denom \<longrightarrow>
      FormatDecimal num denom = FormatDecimal_spec (sint num) (sint denom)) \<and>
   (fmt_range n1 d1 \<and> fmt_range n2 d2 \<and> sint n1 * sint d2 = sint n2 * sint d1 \<longrightarrow>
      FormatDecimal n1 d1 = FormatDecimal n2 d2)"
proof (intro conjI impI)
  show "FormatDecimal num 0 = ''0.00''"
    by (simp add: FormatDecimal_def)
next
  assume "fmt_range num denom"
  then show "FormatDecimal num denom = FormatDecimal_spec (sint num) (sint denom)"
    by (rule FormatDecimal_meets_spec)
next
  assume h: "fmt_range n1 d1 \<and> fmt_range n2 d2 \<and> sint n1 * sint d2 = sint n2 * sint d1"
  then have "FormatDecimal_spec (sint n1) (sint d1) = FormatDecimal_spec (sint n2) (sint d2)"
    by (intro FormatDecimal_spec_same_rational) (simp_all add: fmt_range_def)
  with h show "FormatDecimal n1 d1 = FormatDecimal n2 d2"
    by (simp add: FormatDecimal_meets_spec)
qed

theorem FormatDecimal_contract_witness:
  "fmt_range 300000 100 \<and> fmt_range 3000 1 \<and>
   FormatDecimal 300000 100 = ''3000.00'' \<and> FormatDecimal 3000 1 = ''3000.00'' \<and>
   FormatDecimal_spec 300000 100 = ''3000.00'' \<and>
   FormatDecimal (- 8550) 100 = FormatDecimal_spec (- 8550) 100 \<and>
   FormatDecimal 7 0 = ''0.00''"
proof -
  have r: "fmt_range 300000 100" "fmt_range 3000 1" "fmt_range (- 8550) 100"
    by (simp_all add: fmt_range_def)
  have e: "sint (300000 :: int64) * sint (1 :: int64) = sint (3000 :: int64) * sint (100 :: int64)"
    by simp
  have s: "FormatDecimal_spec 300000 100 = ''3000.00''"
    by (simp add: FormatDecimal_spec_def show_nat.simps zero_pad_def digit_char_def)
  from FormatDecimal_contract [of 300000 100 300000 100 3000 1] r e s
  have a: "FormatDecimal 300000 100 = ''3000.00''" "FormatDecimal 3000 1 = ''3000.00''"
    by auto
  from FormatDecimal_contract [of "- 8550" 100 0 1 0 1] r
  have b: "FormatDecimal (- 8550) 100 = FormatDecimal_spec (- 8550) 100"
    by simp
  from FormatDecimal_contract [of 7 1 0 1 0 1]
  have c: "FormatDecimal 7 0 = ''0.00''"
    by simp
  from r a b c s show ?thesis by simp
qed

text \<open>
  C4 as it is written fails where the 64-bit arithmetic wraps: \<open>5 * 10^17 / 10^18\<close> and
  \<open>1 / 2\<close> are the same rational and render differently, and the most negative
  numerator renders with two signs.
\<close>

theorem FormatDecimal_counterexample:
  "0 < sint (1000000000000000000 :: int64) \<and> 0 < sint (2 :: int64) \<and>
   sint (500000000000000000 :: int64) * sint (2 :: int64) =
     sint (1 :: int64) * sint (1000000000000000000 :: int64) \<and>
   FormatDecimal 500000000000000000 1000000000000000000 = ''0.-5'' \<and>
   FormatDecimal 1 2 = ''0.50'' \<and>
   FormatDecimal (- 9223372036854775808) 1 = ''--9223372036854775808.00'' \<and>
   FormatDecimal_spec (- 9223372036854775808) 1 = ''-9223372036854775808.00''"
  by (simp add: FormatDecimal_eval FormatDecimal_spec_def)

section \<open>Case folding and pattern matching\<close>

lemma to_lower_char_Char:
  "to_lower_char (Char b0 b1 b2 b3 b4 b5 b6 b7) =
     (if \<not> b7 \<and> b6 \<and> \<not> b5 \<and> (b0 \<or> b1 \<or> b2 \<or> b3 \<or> b4) \<and> \<not> (b4 \<and> b3 \<and> (b2 \<or> (b1 \<and> b0)))
      then Char b0 b1 b2 b3 b4 True b6 b7 else Char b0 b1 b2 b3 b4 b5 b6 b7)"
  by (cases b0; cases b1; cases b2; cases b3; cases b4; cases b5; cases b6; cases b7;
      simp add: to_lower_char_def)

lemma to_lower_char_idem [simp]: "to_lower_char (to_lower_char c) = to_lower_char c"
  by (cases c) (simp add: to_lower_char_Char)

lemma ascii_lower_idem [simp]: "ascii_lower (ascii_lower s) = ascii_lower s"
  by (simp add: ascii_lower_def)

lemma to_lower_char_percent [simp]: "to_lower_char c = CHR ''%'' \<longleftrightarrow> c = CHR ''%''"
  by (cases c) (auto simp add: to_lower_char_Char)

lemma to_lower_char_underscore [simp]: "to_lower_char c = CHR ''_'' \<longleftrightarrow> c = CHR ''_''"
  by (cases c) (auto simp add: to_lower_char_Char)

lemma sql_like_percent_all: "sql_like ''%'' t"
  by (induction t) simp_all

lemma sql_like_percent_intro: "sql_like q t \<Longrightarrow> sql_like (CHR ''%'' # q) t"
  by (cases t) simp_all

lemma sql_like_prefix_self: "sql_like (p @ ''%'') (p @ rest)"
proof (induction p)
  case Nil
  show ?case using sql_like_percent_all by simp
next
  case (Cons c p)
  show ?case
  proof (cases "c = CHR ''%''")
    case True
    have "sql_like (CHR ''%'' # p @ ''%'') (p @ rest)"
      using Cons.IH by (rule sql_like_percent_intro)
    then show ?thesis using True by simp
  next
    case False
    then show ?thesis using Cons.IH by simp
  qed
qed

lemma sql_like_contains_self: "sql_like (''%'' @ p @ ''%'') p"
  using sql_like_prefix_self [of p "[]"] by (simp add: sql_like_percent_intro)

lemma sql_like_percent_iff:
  "sql_like (CHR ''%'' # q) t \<longleftrightarrow> (\<exists>k\<le>length t. sql_like q (drop k t))"
proof (induction t)
  case Nil
  show ?case by simp
next
  case (Cons c cs)
  have "(\<exists>k\<le>length (c # cs). sql_like q (drop k (c # cs))) \<longleftrightarrow>
        sql_like q (c # cs) \<or> (\<exists>k\<le>length cs. sql_like q (drop k cs))"
  proof
    assume "\<exists>k\<le>length (c # cs). sql_like q (drop k (c # cs))"
    then obtain k where k: "k \<le> length (c # cs)" "sql_like q (drop k (c # cs))" by blast
    show "sql_like q (c # cs) \<or> (\<exists>k\<le>length cs. sql_like q (drop k cs))"
    proof (cases k)
      case 0
      with k show ?thesis by simp
    next
      case (Suc j)
      with k have "j \<le> length cs" "sql_like q (drop j cs)" by simp_all
      then show ?thesis by blast
    qed
  next
    assume "sql_like q (c # cs) \<or> (\<exists>k\<le>length cs. sql_like q (drop k cs))"
    then show "\<exists>k\<le>length (c # cs). sql_like q (drop k (c # cs))"
    proof
      assume "sql_like q (c # cs)"
      then have "sql_like q (drop 0 (c # cs))" by simp
      then show ?thesis by blast
    next
      assume "\<exists>k\<le>length cs. sql_like q (drop k cs)"
      then obtain k where "k \<le> length cs" "sql_like q (drop k cs)" by blast
      then have "Suc k \<le> length (c # cs)" "sql_like q (drop (Suc k) (c # cs))" by simp_all
      then show ?thesis by blast
    qed
  qed
  with Cons.IH show ?case by simp
qed

lemma sql_like_prefix_iff:
  assumes "CHR ''%'' \<notin> set p" "CHR ''_'' \<notin> set p"
  shows "sql_like (p @ ''%'') t \<longleftrightarrow>
         length p \<le> length t \<and> ascii_lower (take (length p) t) = ascii_lower p"
  using assms
proof (induction p arbitrary: t)
  case Nil
  show ?case using sql_like_percent_all by (simp add: ascii_lower_def)
next
  case (Cons c p)
  note prems = Cons.prems and IH = Cons.IH
  show ?case
  proof (cases t)
    case Nil
    with prems show ?thesis by auto
  next
    case (Cons d ds)
    with prems IH [of ds] show ?thesis
      by (auto simp add: ascii_lower_def)
  qed
qed

lemma ci_substring_iff:
  "ci_substring name s \<longleftrightarrow>
     (\<exists>k\<le>length s. length name \<le> length (drop k s) \<and>
                    ascii_lower (take (length name) (drop k s)) = ascii_lower name)"
proof -
  have "{0..<Suc (length s)} = {k. k \<le> length s}"
    by auto
  then show ?thesis
    unfolding ci_substring_def list_ex_iff set_upt by blast
qed

lemma ci_substring_append:
  "ci_substring name s \<longleftrightarrow> (\<exists>u v w. s = u @ v @ w \<and> ascii_lower v = ascii_lower name)"
proof
  assume "\<exists>u v w. s = u @ v @ w \<and> ascii_lower v = ascii_lower name"
  then obtain u v w where s: "s = u @ v @ w" and v: "ascii_lower v = ascii_lower name"
    by blast
  from v have l: "length v = length name"
    by (metis ascii_lower_def length_map)
  have "length u \<le> length s" using s by simp
  moreover have "length name \<le> length (drop (length u) s)" using s l by simp
  moreover have "ascii_lower (take (length name) (drop (length u) s)) = ascii_lower name"
    using s l v by simp
  ultimately show "ci_substring name s" unfolding ci_substring_iff by blast
next
  assume "ci_substring name s"
  then obtain k where k: "k \<le> length s" "length name \<le> length (drop k s)"
        "ascii_lower (take (length name) (drop k s)) = ascii_lower name"
    unfolding ci_substring_iff by blast
  have "s = take k s @ take (length name) (drop k s) @ drop (length name) (drop k s)"
    by (metis append_take_drop_id)
  with k(3) show "\<exists>u v w. s = u @ v @ w \<and> ascii_lower v = ascii_lower name" by blast
qed

lemma percent_in_ascii_lower: "CHR ''%'' \<in> set (ascii_lower s) \<longleftrightarrow> CHR ''%'' \<in> set s"
  by (induction s) (auto simp: ascii_lower_def eq_commute [of "CHR ''%''"])

lemma underscore_in_ascii_lower: "CHR ''_'' \<in> set (ascii_lower s) \<longleftrightarrow> CHR ''_'' \<in> set s"
  by (induction s) (auto simp: ascii_lower_def eq_commute [of "CHR ''_''"])

lemma has_wildcard_ascii_lower: "has_wildcard (ascii_lower name) = has_wildcard name"
  by (simp add: has_wildcard_def percent_in_ascii_lower underscore_in_ascii_lower)

lemma ascii_lower_take: "ascii_lower (take n s) = take n (ascii_lower s)"
  by (simp add: ascii_lower_def take_map)
lemma ascii_lower_drop: "ascii_lower (drop n s) = drop n (ascii_lower s)"
  by (simp add: ascii_lower_def drop_map)
lemma length_ascii_lower [simp]: "length (ascii_lower s) = length s"
  by (simp add: ascii_lower_def)

lemma like_pattern_is_substring:
  assumes "\<not> has_wildcard name"
  shows "sql_like (CHR ''%'' # ascii_lower name @ ''%'') (ascii_lower s) \<longleftrightarrow> ci_substring name s"
proof -
  have w: "CHR ''%'' \<notin> set (ascii_lower name)" "CHR ''_'' \<notin> set (ascii_lower name)"
    using assms has_wildcard_ascii_lower [of name] by (auto simp: has_wildcard_def)
  have "sql_like (CHR ''%'' # ascii_lower name @ ''%'') (ascii_lower s) \<longleftrightarrow>
        (\<exists>k\<le>length (ascii_lower s). sql_like (ascii_lower name @ ''%'') (drop k (ascii_lower s)))"
    using sql_like_percent_iff [of "ascii_lower name @ ''%''" "ascii_lower s"] by simp
  also have "\<dots> \<longleftrightarrow> (\<exists>k\<le>length s. length name \<le> length (drop k s) \<and>
                    ascii_lower (take (length name) (drop k s)) = ascii_lower name)"
    by (simp add: sql_like_prefix_iff [OF w] ascii_lower_take ascii_lower_drop)
  also have "\<dots> \<longleftrightarrow> ci_substring name s"
    by (rule ci_substring_iff [symmetric])
  finally show ?thesis .
qed

lemma non_ascii_Char: "non_ascii (Char b0 b1 b2 b3 b4 b5 b6 b7) = b7"
  by (simp add: non_ascii_def)

lemma ascii_text_isASCII: "ascii_text s \<Longrightarrow> isASCII s"
  by (simp add: ascii_text_def isASCII_def list_all_iff)

lemma ToLower_ascii: "isASCII s \<Longrightarrow> ToLower pf s = ascii_lower s"
  by (simp add: ToLower_def)

lemma EqualFold_ascii:
  assumes "isASCII s" "isASCII t"
  shows "EqualFold pf s t \<longleftrightarrow> ascii_lower s = ascii_lower t"
  using assms
proof (induction pf s t rule: EqualFold.induct)
  case (4 pf sr s tr t)
  then show ?case by (auto simp: isASCII_def ascii_lower_def)
qed (simp_all add: ascii_lower_def)

lemma exact_is_like:
  assumes "isASCII s" "isASCII name" "EqualFold pf s name"
  shows "sql_like (CHR ''%'' # ascii_lower name @ ''%'') (ascii_lower s)"
  using assms sql_like_contains_self [of "ascii_lower name"] by (simp add: EqualFold_ascii)


lemma ascii_lower_Cons: "ascii_lower (c # s) = to_lower_char c # ascii_lower s"
  by (simp add: ascii_lower_def)

lemma ascii_lower_Nil: "ascii_lower [] = []"
  by (simp add: ascii_lower_def)

lemmas string_eval = ToLower_def sql_LOWER_def isASCII_def ascii_text_def non_ascii_Char
  ascii_lower_Cons ascii_lower_Nil to_lower_char_Char

lemmas seed_rows = row_root_def row_assets_def row_expenses_def row_income_def
  row_checking_def row_groceries_def row_restaurant_def row_salary_def

lemmas seed_defs = seed_db_def seed_accounts_def seed_transactions_def seed_splits_def
  seed_rows mk_account_def mk_tx_def mk_split_def

section \<open>Resolving accounts\<close>

lemma FindAccountsByName_candidates:
  "FindAccountsByName pf db name = Inr (candidates pf db name)"
  by (simp add: candidates_def FindAccountsByName_def)

lemma candidates_eq:
  "candidates pf db name = map scan_account (sort_key ar_name
      (filter (\<lambda>a. sql_like (''%'' @ ToLower pf name @ ''%'') (sql_LOWER (ar_name a))) (accounts db)))"
  by (simp add: candidates_def FindAccountsByName_def)

lemma set_candidates:
  assumes "ascii_text name"
  shows "set (candidates pf db name) =
     scan_account ` {r \<in> set (accounts db).
                      sql_like (''%'' @ ascii_lower name @ ''%'') (ascii_lower (ar_name r))}"
  using ascii_text_isASCII [OF assms]
  by (auto simp: candidates_eq ToLower_ascii sql_LOWER_def)

lemma set_candidates_substring:
  assumes "ascii_text name" "\<not> has_wildcard name"
  shows "set (candidates pf db name) = scan_account ` set (substring_matches db name)"
  using assms by (simp add: set_candidates substring_matches_def like_pattern_is_substring)

lemma acc_Name_scan [simp]: "acc_Name (scan_account r) = ar_name r"
  by (simp add: scan_account_def)

lemma exact_in_candidates:
  assumes "ascii_text name" "r \<in> set (accounts db)" "ascii_text (ar_name r)"
      and "EqualFold pf (ar_name r) name"
  shows "scan_account r \<in> set (candidates pf db name)"
proof -
  have "sql_like (CHR ''%'' # ascii_lower name @ ''%'') (ascii_lower (ar_name r))"
    using assms by (intro exact_is_like [of _ _ pf] ascii_text_isASCII)
  with assms(2) show ?thesis
    by (auto simp: set_candidates [OF assms(1)])
qed

lemma resolveAccount_cases:
  "resolveAccount pf db name =
     (if candidates pf db name = [] then Inl (not_found_error name)
      else case find (exact_match pf name) (candidates pf db name) of
             Some a \<Rightarrow> Inr a
           | None \<Rightarrow> if 2 \<le> length (candidates pf db name)
                     then Inl (ambiguous_error name (candidates pf db name))
                     else Inr (candidates pf db name ! 0))"
proof -
  have "exact_match pf name = (\<lambda>a. EqualFold pf (acc_Name a) name)"
    by (auto simp: exact_match_def)
  then show ?thesis
    by (auto simp: resolveAccount_def FindAccountsByName_candidates split: option.splits)
qed

lemma find_exact_Some:
  assumes "\<exists>a\<in>set accs. exact_match pf name a"
  shows "\<exists>a. find (exact_match pf name) accs = Some a \<and> a \<in> set accs \<and> exact_match pf name a"
  using assms by (induction accs) auto

lemma find_exact_None:
  assumes "\<forall>a\<in>set accs. \<not> exact_match pf name a"
  shows "find (exact_match pf name) accs = None"
  using assms by (simp add: find_None_iff)

text \<open>
  C5, as amended. The candidates of a resolution are the accounts that the query
  returns. No candidate gives the not-found error; a candidate whose name equals the
  input up to case, as \<^verbatim>\<open>strings.EqualFold\<close> compares them, is returned, whatever else
  matches; two or more candidates, none of them exact, give the ambiguity error, whose
  message lists the name and type of every candidate; one candidate is returned. An
  error is returned in the first and third case only.

  When the input and the account names are ASCII texts, the candidates are the accounts
  whose name matches the SQL pattern \<open>%name%\<close> up to case, which for an input without
  \<open>%\<close> and \<open>_\<close> are the accounts whose name contains it as a substring up to case, and
  every account whose name equals the input up to case is among them.
\<close>

theorem resolveAccount_trichotomy:
  fixes pf :: "'t platform" and db :: DB and name :: string
  defines "accs \<equiv> candidates pf db name"
  shows "FindAccountsByName pf db name = Inr accs \<and>
    (ascii_text name \<and> (\<forall>r\<in>set (accounts db). ascii_text (ar_name r)) \<longrightarrow>
       set accs = scan_account ` {r \<in> set (accounts db).
                    sql_like (''%'' @ ascii_lower name @ ''%'') (ascii_lower (ar_name r))} \<and>
       (\<not> has_wildcard name \<longrightarrow> set accs = scan_account ` set (substring_matches db name)) \<and>
       (\<forall>r\<in>set (accounts db). EqualFold pf (ar_name r) name \<longrightarrow> scan_account r \<in> set accs)) \<and>
    (accs = [] \<longrightarrow> resolveAccount pf db name = Inl (not_found_error name)) \<and>
    ((\<exists>a\<in>set accs. exact_match pf name a) \<longrightarrow>
       (\<exists>a\<in>set accs. exact_match pf name a \<and> resolveAccount pf db name = Inr a)) \<and>
    ((\<forall>a\<in>set accs. \<not> exact_match pf name a) \<and> 2 \<le> length accs \<longrightarrow>
       resolveAccount pf db name = Inl (ambiguous_error name accs)) \<and>
    ((\<forall>a\<in>set accs. \<not> exact_match pf name a) \<and> length accs = 1 \<longrightarrow>
       resolveAccount pf db name = Inr (accs ! 0)) \<and>
    ((\<exists>e. resolveAccount pf db name = Inl e) \<longleftrightarrow>
       accs = [] \<or> ((\<forall>a\<in>set accs. \<not> exact_match pf name a) \<and> 2 \<le> length accs))"
proof (intro conjI impI ballI)
  show "FindAccountsByName pf db name = Inr accs"
    unfolding accs_def by (rule FindAccountsByName_candidates)
  show "set accs = scan_account ` {r \<in> set (accounts db).
                 sql_like (''%'' @ ascii_lower name @ ''%'') (ascii_lower (ar_name r))}"
    if "ascii_text name \<and> (\<forall>r\<in>set (accounts db). ascii_text (ar_name r))"
    unfolding accs_def using that by (intro set_candidates) simp
  show "set accs = scan_account ` set (substring_matches db name)"
    if "ascii_text name \<and> (\<forall>r\<in>set (accounts db). ascii_text (ar_name r))"
       "\<not> has_wildcard name"
    unfolding accs_def using that by (intro set_candidates_substring) simp_all
  show "scan_account r \<in> set accs"
    if "ascii_text name \<and> (\<forall>r\<in>set (accounts db). ascii_text (ar_name r))"
       "r \<in> set (accounts db)" "EqualFold pf (ar_name r) name" for r
    unfolding accs_def using that by (intro exact_in_candidates) simp_all
  show "resolveAccount pf db name = Inl (not_found_error name)" if "accs = []"
    using that by (simp add: resolveAccount_cases accs_def)
  show "\<exists>a\<in>set accs. exact_match pf name a \<and> resolveAccount pf db name = Inr a"
    if h: "\<exists>a\<in>set accs. exact_match pf name a"
  proof -
    from find_exact_Some [OF h] obtain a where
      a: "find (exact_match pf name) accs = Some a" "a \<in> set accs" "exact_match pf name a"
      by blast
    then have "accs \<noteq> []" by auto
    with a have "resolveAccount pf db name = Inr a"
      by (simp add: resolveAccount_cases accs_def)
    with a show ?thesis by blast
  qed
  show "resolveAccount pf db name = Inl (ambiguous_error name accs)"
    if "(\<forall>a\<in>set accs. \<not> exact_match pf name a) \<and> 2 \<le> length accs"
  proof -
    from that have "find (exact_match pf name) accs = None" "accs \<noteq> []" "2 \<le> length accs"
      by (auto simp: find_exact_None)
    then show ?thesis by (simp add: resolveAccount_cases accs_def)
  qed
  show "resolveAccount pf db name = Inr (accs ! 0)"
    if "(\<forall>a\<in>set accs. \<not> exact_match pf name a) \<and> length accs = 1"
  proof -
    from that have "find (exact_match pf name) accs = None" "accs \<noteq> []" "\<not> 2 \<le> length accs"
      by (auto simp: find_exact_None)
    then show ?thesis by (simp add: resolveAccount_cases accs_def)
  qed
  show "(\<exists>e. resolveAccount pf db name = Inl e) \<longleftrightarrow>
       accs = [] \<or> ((\<forall>a\<in>set accs. \<not> exact_match pf name a) \<and> 2 \<le> length accs)"
  proof (cases "find (exact_match pf name) accs")
    case None
    then have "\<forall>a\<in>set accs. \<not> exact_match pf name a" by (simp add: find_None_iff)
    with None show ?thesis by (auto simp: resolveAccount_cases accs_def)
  next
    case (Some a)
    then have "\<exists>a\<in>set accs. exact_match pf name a" "accs \<noteq> []"
      by (auto simp: find_Some_iff)
    with Some show ?thesis by (auto simp: resolveAccount_cases accs_def)
  qed
qed

lemma seed_ascii: "\<forall>r\<in>set (accounts seed_db). ascii_text (ar_name r)"
  by (simp add: seed_defs string_eval)

theorem resolveAccount_trichotomy_witness:
  "resolveAccount example_platform seed_db ''Nonexistent'' = Inl (not_found_error ''Nonexistent'') \<and>
   resolveAccount example_platform seed_db ''checking'' = Inr (scan_account row_checking) \<and>
   resolveAccount example_platform seed_db ''e'' =
     Inl (ambiguous_error ''e'' (map scan_account
       [row_assets, row_checking, row_expenses, row_groceries, row_income, row_restaurant])) \<and>
   resolveAccount example_platform seed_db ''Groc'' = Inr (scan_account row_groceries) \<and>
   ascii_text ''e'' \<and> list_all (\<lambda>r. ascii_text (ar_name r)) (accounts seed_db) \<and>
   \<not> has_wildcard ''e'' \<and>
   set (candidates example_platform seed_db ''e'') =
     scan_account ` set (substring_matches seed_db ''e'') \<and>
   EqualFold example_platform (ar_name row_checking) ''checking'' \<and>
   scan_account row_checking \<in> set (candidates example_platform seed_db ''checking'')"
proof -
  let ?pf = example_platform
  have c1: "candidates ?pf seed_db ''Nonexistent'' = []"
    by (simp add: candidates_eq seed_defs string_eval)
  have c2: "candidates ?pf seed_db ''checking'' = [scan_account row_checking]"
    by (simp add: candidates_eq seed_defs string_eval)
  have c3: "candidates ?pf seed_db ''e'' = map scan_account
       [row_assets, row_checking, row_expenses, row_groceries, row_income, row_restaurant]"
    by (simp add: candidates_eq seed_defs string_eval)
  have c4: "candidates ?pf seed_db ''Groc'' = [scan_account row_groceries]"
    by (simp add: candidates_eq seed_defs string_eval)
  have e2: "exact_match ?pf ''checking'' (scan_account row_checking)"
    by (simp add: exact_match_def seed_rows mk_account_def string_eval)
  have e3: "\<forall>a\<in>set (candidates ?pf seed_db ''e''). \<not> exact_match ?pf ''e'' a"
    by (simp add: c3 exact_match_def seed_rows mk_account_def string_eval)
  have e4: "\<forall>a\<in>set (candidates ?pf seed_db ''Groc''). \<not> exact_match ?pf ''Groc'' a"
    by (simp add: c4 exact_match_def seed_rows mk_account_def string_eval)
  have a1: "ascii_text ''e''" "ascii_text ''checking''" "\<not> has_wildcard ''e''"
    by (simp_all add: string_eval has_wildcard_def)
  have m: "row_checking \<in> set (accounts seed_db)"
    by (simp add: seed_db_def seed_accounts_def)
  from resolveAccount_trichotomy [of ?pf seed_db "''Nonexistent''"] c1
  have r1: "resolveAccount ?pf seed_db ''Nonexistent'' = Inl (not_found_error ''Nonexistent'')"
    by simp
  from resolveAccount_trichotomy [of ?pf seed_db "''checking''"] c2 e2
  have r2: "resolveAccount ?pf seed_db ''checking'' = Inr (scan_account row_checking)"
    by simp
  from resolveAccount_trichotomy [of ?pf seed_db "''e''"] e3
  have r3: "resolveAccount ?pf seed_db ''e'' = Inl (ambiguous_error ''e'' (candidates ?pf seed_db ''e''))"
    by (simp add: c3)
  from resolveAccount_trichotomy [of ?pf seed_db "''Groc''"] e4
  have r4: "resolveAccount ?pf seed_db ''Groc'' = Inr (candidates ?pf seed_db ''Groc'' ! 0)"
    by (simp add: c4)
  from resolveAccount_trichotomy [of ?pf seed_db "''e''"] a1 seed_ascii
  have s3: "set (candidates ?pf seed_db ''e'') = scan_account ` set (substring_matches seed_db ''e'')"
    by blast
  have x2: "EqualFold ?pf (ar_name row_checking) ''checking''"
    using e2 by (simp add: exact_match_def)
  from resolveAccount_trichotomy [of ?pf seed_db "''checking''"] a1 seed_ascii m x2
  have s2: "scan_account row_checking \<in> set (candidates ?pf seed_db ''checking'')"
    by blast
  have la: "list_all (\<lambda>r. ascii_text (ar_name r)) (accounts seed_db)"
    using seed_ascii by (simp add: list_all_iff)
  from r1 r2 r3 r4 c3 c4 a1 la s3 x2 s2 show ?thesis by simp
qed

text \<open>
  C5 as it is written fails on a name with a wildcard: no account of the seed ledger
  contains \<open>Check_ng\<close> as a substring, and the resolution returns Checking.
\<close>

theorem resolveAccount_counterexample:
  "substring_matches seed_db ''Check_ng'' = [] \<and>
   resolveAccount example_platform seed_db ''Check_ng'' = Inr (scan_account row_checking)"
proof -
  have "candidates example_platform seed_db ''Check_ng'' = [scan_account row_checking]"
    by (simp add: candidates_eq seed_defs string_eval)
  moreover have "substring_matches seed_db ''Check_ng'' = []"
    by (simp add: substring_matches_def ci_substring_def seed_defs string_eval upt_rec)
  ultimately show ?thesis
    by (simp add: resolveAccount_cases exact_match_def seed_rows mk_account_def
        string_eval)
qed

text \<open>
  Outside ASCII the two sides of the query fold case differently: Go lowers the
  capital of the input, SQLite leaves the capital of the column as it is. The account
  \<open>Ecole\<close> with the accent is no candidate for its own name, which equals it byte for
  byte, and the resolution gives the not-found error.
\<close>

lemma resolveAccount_outside_ascii:
  "EqualFold latin_platform Ecole Ecole \<and>
   ci_substring Ecole Ecole \<and>
   resolveAccount latin_platform ecole_db Ecole = Inl (not_found_error Ecole)"
proof -
  have "candidates latin_platform ecole_db Ecole = []"
    by (simp add: candidates_eq ecole_db_def latin_platform_def example_platform_def Ecole_def
        seed_rows mk_account_def string_eval)
  then have "resolveAccount latin_platform ecole_db Ecole = Inl (not_found_error Ecole)"
    by (simp add: resolveAccount_cases)
  moreover have "EqualFold latin_platform Ecole Ecole"
    by (simp add: latin_platform_def example_platform_def Ecole_def string_eval)
  moreover have "ci_substring Ecole Ecole"
    by (simp add: ci_substring_def Ecole_def string_eval upt_rec)
  ultimately show ?thesis by simp
qed

text \<open>
  C1 on the seed ledger. Groceries is an account of the store and its full path is
  \<open>Expenses:Groceries\<close>; resolving that path gives the not-found error, where the claim
  and \<^verbatim>\<open>TestGetBalance_FullPath\<close> expect the account.
\<close>

theorem resolveAccount_full_path_not_found:
  "row_groceries \<in> set (accounts seed_db) \<and>
   full_path seed_db row_groceries = ''Expenses:Groceries'' \<and>
   resolveAccount pf seed_db ''Expenses:Groceries'' =
     Inl (not_found_error ''Expenses:Groceries'')"
proof -
  have "candidates pf seed_db ''Expenses:Groceries'' = []"
    by (simp add: candidates_eq seed_defs string_eval)
  then have "resolveAccount pf seed_db ''Expenses:Groceries'' =
     Inl (not_found_error ''Expenses:Groceries'')"
    by (simp add: resolveAccount_cases)
  moreover have "full_path seed_db row_groceries = ''Expenses:Groceries''"
    by (simp add: full_path_def seed_defs)
  moreover have "row_groceries \<in> set (accounts seed_db)"
    by (simp add: seed_db_def seed_accounts_def)
  ultimately show ?thesis by simp
qed

text \<open>
  C3 on the seed ledger. With the filter \<open>EXPENSE\<close> the listing still has one line for
  each of the seven accounts below the root, the bank account Checking among them, and
  the path printed on every line is empty.
\<close>

theorem ListAccounts_ignores_filter:
  "ListAccounts third seed_db ''EXPENSE'' =
     Inr (concat (map (\<lambda>r. account_line third (scan_account r))
       [row_assets, row_checking, row_expenses, row_groceries, row_income, row_restaurant,
        row_salary])) \<and>
   acc_AccountType (scan_account row_checking) = ''BANK'' \<and>
   account_line third (scan_account row_checking) =
     tab @ ''BANK'' @ third (scan_account row_checking) @ nl \<and>
   ListAccounts third seed_db ''EXPENSE'' = ListAccounts third seed_db []"
proof -
  have g: "GetAllAccounts seed_db = Inr (map scan_account
       [row_assets, row_checking, row_expenses, row_groceries, row_income, row_restaurant,
        row_salary])"
    by (simp add: GetAllAccounts_def seed_defs)
  have l: "account_line third (scan_account row_checking) =
     tab @ ''BANK'' @ third (scan_account row_checking) @ nl"
    by (simp add: account_line_def scan_account_def seed_rows mk_account_def)
  have "ListAccounts third seed_db ''EXPENSE'' =
     Inr (concat (map (\<lambda>r. account_line third (scan_account r))
       [row_assets, row_checking, row_expenses, row_groceries, row_income, row_restaurant,
        row_salary]))"
    by (simp add: ListAccounts_def g account_line_def tab_def)
  moreover have "ListAccounts third seed_db ''EXPENSE'' = ListAccounts third seed_db []"
    by (simp add: ListAccounts_def)
  moreover have "acc_AccountType (scan_account row_checking) = ''BANK''"
    by (simp add: scan_account_def seed_rows mk_account_def)
  ultimately show ?thesis using l by simp
qed

section \<open>Balances are additive\<close>













section \<open>Transactions of an account\<close>

lemma splits_join_row:
  assumes "(s, t, s2, a2) \<in> set (splits_join db acc sd ed)"
  shows "s \<in> set (splits db)" "sr_account_guid s = acc" "sr_tx_guid s = tr_guid t"
        "s2 \<in> set (splits db)" "sr_tx_guid s2 = tr_guid t" "sr_guid s2 \<noteq> sr_guid s"
        "a2 \<in> set (accounts db)" "sr_account_guid s2 = ar_guid a2"
  using assms by (auto simp: splits_join_def split: if_splits)

lemma lonely_no_row:
  assumes "lonely db acc g" "r \<in> set (splits_join db acc sd ed)"
  shows "sj_tx_guid r \<noteq> g"
proof
  assume g: "sj_tx_guid r = g"
  obtain s t s2 a2 where r: "r = (s, t, s2, a2)" by (cases r) auto
  note row = splits_join_row [OF assms(2) [unfolded r]]
  from g r have tg: "tr_guid t = g" by (simp add: sj_tx_guid_def)
  have "s2 \<in> set (counterparts db s)"
    using row by (auto simp: counterparts_def list_ex_iff)
  moreover have "counterparts db s = []"
    using assms(1) row tg by (auto simp: lonely_def list_all_iff)
  ultimately show False by simp
qed

lemma set_splits_query: "set (splits_query db acc sd ed limit) \<subseteq> set (splits_join db acc sd ed)"
  by (auto simp: splits_query_def sql_limit_def order_by_desc_def dest: in_set_takeD)

lemma map_of_replace:
  "map_of (map (\<lambda>p. if fst p = k then (k, v) else p) m) x =
     (if x = k \<and> map_of m k \<noteq> None then Some v else map_of m x)"
  by (induction m) auto

lemma map_of_map_update:
  "map_of (map_update k v m) = (map_of m)(k \<mapsto> v)"
proof (cases "k \<in> fst ` set m")
  case False
  then have "map_of m k = None" by (simp add: map_of_eq_None_iff)
  then show ?thesis using False
    by (auto simp: map_update_def map_add_def fun_eq_iff split: option.splits)
next
  case True
  then have "map_of m k \<noteq> None" by (simp add: map_of_eq_None_iff)
  with True show ?thesis
    by (auto simp: map_update_def map_of_replace fun_eq_iff)
qed

lemma collect_transactions_inv:
  assumes "collect_transactions pf acc rows (txMap, txOrder) = Inr (txMap', txOrder')"
      and "tx_inv txMap"
  shows "tx_inv txMap' \<and> set txOrder' \<subseteq> set txOrder \<union> sj_tx_guid ` set rows"
  using assms
proof (induction rows arbitrary: txMap txOrder)
  case Nil
  then show ?case by simp
next
  case (Cons r rows)
  obtain s t s2 a2 where r: "r = (s, t, s2, a2)" by (cases r) auto
  from Cons.prems(1) r obtain memo where memo: "sr_memo s = Some memo"
    by (auto split: option.splits)
  show ?case
  proof (cases "map_of txMap (tr_guid t)")
    case None
    define tx where "tx = \<lparr> tx_GUID = tr_guid t, tx_PostDate = fst (parseDate pf (tr_post_date t)),
        tx_Description = tr_description t,
        tx_Splits = [own_split acc s t memo] @ [counterpart_split t s2 a2] \<rparr>"
    define m1 where "m1 = map_update (tr_guid t) tx (map_update (tr_guid t)
        \<lparr> tx_GUID = tr_guid t, tx_PostDate = fst (parseDate pf (tr_post_date t)),
          tx_Description = tr_description t, tx_Splits = [own_split acc s t memo] \<rparr> txMap)"
    from Cons.prems(1) r memo None
    have step: "collect_transactions pf acc rows (m1, txOrder @ [tr_guid t]) = Inr (txMap', txOrder')"
      by (simp add: Let_def m1_def tx_def)
    have "tx_inv m1"
      using Cons.prems(2) by (auto simp: tx_inv_def m1_def tx_def map_of_map_update)
    from Cons.IH [OF step this] r show ?thesis
      by (auto simp: sj_tx_guid_def)
  next
    case (Some tx0)
    define m1 where "m1 = map_update (tr_guid t)
        (tx0 \<lparr> tx_Splits := tx_Splits tx0 @ [counterpart_split t s2 a2] \<rparr>) txMap"
    from Cons.prems(1) r memo Some
    have step: "collect_transactions pf acc rows (m1, txOrder) = Inr (txMap', txOrder')"
      by (simp add: Let_def m1_def)
    have "tx_GUID tx0 = tr_guid t" using Cons.prems(2) Some by (simp add: tx_inv_def)
    then have "tx_inv m1"
      using Cons.prems(2) by (auto simp: tx_inv_def m1_def map_of_map_update)
    from Cons.IH [OF step this] r show ?thesis
      by (auto simp: sj_tx_guid_def)
  qed
qed

lemma GetSplitsForAccount_guids:
  assumes "GetSplitsForAccount pf db acc sd ed limit = Inr txs"
  shows "tx_GUID ` set txs \<subseteq> sj_tx_guid ` set (splits_query db acc sd ed limit)"
proof -
  from assms obtain txMap txOrder where
    c: "collect_transactions pf acc (splits_query db acc sd ed limit) ([], []) = Inr (txMap, txOrder)"
    and t: "txs = concat (map (\<lambda>guid. case map_of txMap guid of None \<Rightarrow> [] | Some tx \<Rightarrow> [tx]) txOrder)"
    by (auto simp: GetSplitsForAccount_def split: sum.splits)
  have "tx_inv ([] :: (string \<times> 'a Transaction) list)" by (simp add: tx_inv_def)
  from collect_transactions_inv [OF c this]
  have inv: "tx_inv txMap" and ord: "set txOrder \<subseteq> sj_tx_guid ` set (splits_query db acc sd ed limit)"
    by auto
  show ?thesis
  proof
    fix g assume "g \<in> tx_GUID ` set txs"
    then obtain tx where "tx \<in> set txs" "g = tx_GUID tx" by auto
    with t obtain guid where "guid \<in> set txOrder" "map_of txMap guid = Some tx"
      by (auto split: option.splits)
    with inv have "tx_GUID tx = guid" by (simp add: tx_inv_def)
    with \<open>guid \<in> set txOrder\<close> \<open>g = tx_GUID tx\<close> ord
    show "g \<in> sj_tx_guid ` set (splits_query db acc sd ed limit)" by auto
  qed
qed

lemma lonely_not_returned:
  assumes "lonely db acc g" "GetSplitsForAccount pf db acc sd ed limit = Inr txs"
  shows "g \<notin> tx_GUID ` set txs"
proof
  assume "g \<in> tx_GUID ` set txs"
  with GetSplitsForAccount_guids [OF assms(2)]
  have "g \<in> sj_tx_guid ` set (splits_query db acc sd ed limit)" by blast
  then obtain r where "r \<in> set (splits_query db acc sd ed limit)" "sj_tx_guid r = g" by blast
  with set_splits_query [of db acc sd ed limit]
  have "r \<in> set (splits_join db acc sd ed)" "sj_tx_guid r = g" by blast+
  with lonely_no_row [OF assms(1)] show False by blast
qed

lemma concat_map_filter_empty:
  assumes "\<And>x. x \<in> set xs \<Longrightarrow> \<not> P x \<Longrightarrow> f x = []"
  shows "concat (map f (filter P xs)) = concat (map f xs)"
  using assms by (induction xs) auto

lemma splits_join_remove:
  assumes "lonely db acc g"
  shows "splits_join (remove_transaction g db) acc sd ed = splits_join db acc sd ed"
proof -
  have "concat (map (\<lambda>t. [(s, t, s2, a2).
            u \<leftarrow> [()], sr_tx_guid s = tr_guid t,
            sd = [] \<or> start_of_day sd \<le> tr_post_date t,
            ed = [] \<or> tr_post_date t \<le> end_of_day ed,
            s2 \<leftarrow> splits db, sr_tx_guid s2 = tr_guid t \<and> sr_guid s2 \<noteq> sr_guid s,
            a2 \<leftarrow> accounts db, sr_account_guid s2 = ar_guid a2])
          (filter (\<lambda>t. tr_guid t \<noteq> g) (transactions db))) =
        concat (map (\<lambda>t. [(s, t, s2, a2).
            u \<leftarrow> [()], sr_tx_guid s = tr_guid t,
            sd = [] \<or> start_of_day sd \<le> tr_post_date t,
            ed = [] \<or> tr_post_date t \<le> end_of_day ed,
            s2 \<leftarrow> splits db, sr_tx_guid s2 = tr_guid t \<and> sr_guid s2 \<noteq> sr_guid s,
            a2 \<leftarrow> accounts db, sr_account_guid s2 = ar_guid a2])
          (transactions db))"
    if s: "s \<in> set (splits db)" "sr_account_guid s = acc" for s
  proof (rule concat_map_filter_empty)
    fix t assume t: "t \<in> set (transactions db)" "\<not> tr_guid t \<noteq> g"
    have "counterparts db s = []" if "sr_tx_guid s = tr_guid t"
      using assms s t that by (auto simp: lonely_def list_all_iff)
    then have "\<And>s2 a2. sr_tx_guid s = tr_guid t \<Longrightarrow> s2 \<in> set (splits db) \<Longrightarrow>
        sr_tx_guid s2 = tr_guid t \<Longrightarrow> sr_guid s2 \<noteq> sr_guid s \<Longrightarrow>
        a2 \<in> set (accounts db) \<Longrightarrow> sr_account_guid s2 \<noteq> ar_guid a2"
      by (auto simp: counterparts_def filter_empty_conv list_ex_iff)
    then show "[(s, t, s2, a2).
            u \<leftarrow> [()], sr_tx_guid s = tr_guid t,
            sd = [] \<or> start_of_day sd \<le> tr_post_date t,
            ed = [] \<or> tr_post_date t \<le> end_of_day ed,
            s2 \<leftarrow> splits db, sr_tx_guid s2 = tr_guid t \<and> sr_guid s2 \<noteq> sr_guid s,
            a2 \<leftarrow> accounts db, sr_account_guid s2 = ar_guid a2] = []"
      by (auto simp: concat_eq_Nil_conv)
  qed
  then show ?thesis
    unfolding splits_join_def remove_transaction_def
    by (simp cong: if_cong map_cong)
qed


lemma resolveAccount_accounts:
  "accounts db' = accounts db \<Longrightarrow> resolveAccount pf db' name = resolveAccount pf db name"
  by (simp add: resolveAccount_def FindAccountsByName_def)

lemma GetSplitsForAccount_remove:
  assumes "lonely db acc g"
  shows "GetSplitsForAccount pf (remove_transaction g db) acc sd ed limit =
         GetSplitsForAccount pf db acc sd ed limit"
  by (simp add: GetSplitsForAccount_def splits_query_def splits_join_remove [OF assms])

text \<open>
  C10. Let the name resolve to an account and let a transaction be lonely for it: no
  split of the transaction on the account has a counterpart split on an existing
  account. Then no transaction that the store returns for the account has its GUID, and
  \<open>GetTransactions\<close> gives the same result, rows and count, as on the store without the
  transaction.
\<close>

theorem lonely_transaction_omitted:
  assumes "resolveAccount pf db accountName = Inr account"
      and "lonely db (acc_GUID account) txGUID"
  shows "GetTransactions pf (remove_transaction txGUID db) accountName startDate endDate limit =
           GetTransactions pf db accountName startDate endDate limit \<and>
         (\<forall>txs. GetSplitsForAccount pf db (acc_GUID account) startDate endDate limit = Inr txs
            \<longrightarrow> txGUID \<notin> tx_GUID ` set txs)"
proof -
  have "resolveAccount pf (remove_transaction txGUID db) accountName = Inr account"
    using assms(1) resolveAccount_accounts [of "remove_transaction txGUID db" db pf accountName]
    by (simp add: remove_transaction_def)
  then have "GetTransactions pf (remove_transaction txGUID db) accountName startDate endDate limit =
           GetTransactions pf db accountName startDate endDate limit"
    using assms(1) by (simp add: GetTransactions_def GetSplitsForAccount_remove [OF assms(2)])
  with lonely_not_returned [OF assms(2)] show ?thesis by blast
qed

lemmas query_eval = splits_query_def splits_join_def order_by_desc_def sql_limit_def
  start_of_day_def end_of_day_def sj_post_date_def

theorem lonely_transaction_omitted_witness:
  "resolveAccount example_platform lonely_db ''Checking'' = Inr (scan_account row_checking) \<and>
   lonely lonely_db ''checking'' ''txL'' \<and>
   list_ex (\<lambda>s. sr_tx_guid s = ''txL'' \<and> sr_account_guid s = ''checking'') (splits lonely_db) \<and>
   GetTransactions example_platform (remove_transaction ''txL'' lonely_db) ''Checking'' [] [] 50 =
     GetTransactions example_platform lonely_db ''Checking'' [] [] 50 \<and>
   map_sum id (map tx_summary)
     (GetSplitsForAccount example_platform lonely_db ''checking'' [] [] 50) =
     Inr [(''txB'', [[], ''Restaurant''])]"
proof -
  have c: "candidates example_platform lonely_db ''Checking'' = [scan_account row_checking]"
    by (simp add: candidates_eq lonely_db_def seed_defs string_eval)
  have r: "resolveAccount example_platform lonely_db ''Checking'' = Inr (scan_account row_checking)"
    by (simp add: resolveAccount_cases c exact_match_def seed_rows mk_account_def
        string_eval)
  have g: "acc_GUID (scan_account row_checking) = ''checking''"
    by (simp add: scan_account_def seed_rows mk_account_def)
  have l: "lonely lonely_db ''checking'' ''txL''"
    by (simp add: lonely_def counterparts_def lonely_db_def seed_defs)
  have e: "list_ex (\<lambda>s. sr_tx_guid s = ''txL'' \<and> sr_account_guid s = ''checking'') (splits lonely_db)"
    by (simp add: lonely_db_def mk_split_def)
  have q: "map_sum id (map tx_summary)
     (GetSplitsForAccount example_platform lonely_db ''checking'' [] [] 50) =
     Inr [(''txB'', [[], ''Restaurant''])]"
    by (simp add: GetSplitsForAccount_def query_eval lonely_db_def seed_defs map_update_def
      own_split_def counterpart_split_def tx_summary_def coalesce_def Let_def)
  from lonely_transaction_omitted [OF r, unfolded g, OF l, of "[]" "[]" 50] r l e q
  show ?thesis by simp
qed

text \<open>
  C2 on a ledger with a three-leg transaction. Two transactions match the checking
  account. With limit 2 the store returns one of them, since \<^verbatim>\<open>LIMIT\<close> counts the joined
  rows and the three-leg transaction has two; with limit 1 it returns that transaction
  with one of its two counterpart legs. Without a limit both come back complete.
\<close>

theorem GetSplitsForAccount_limit_counts_rows:
  "map tr_guid (matching_transactions three_leg_db ''checking'' [] []) = [''txA'', ''txB''] \<and>
   map_sum id (map tx_summary) (GetSplitsForAccount pf three_leg_db ''checking'' [] [] 2) =
     Inr [(''txA'', [[], ''Groceries'', ''Restaurant''])] \<and>
   map_sum id (map tx_summary) (GetSplitsForAccount pf three_leg_db ''checking'' [] [] 1) =
     Inr [(''txA'', [[], ''Groceries''])] \<and>
   map_sum id (map tx_summary) (GetSplitsForAccount pf three_leg_db ''checking'' [] [] 0) =
     Inr [(''txA'', [[], ''Groceries'', ''Restaurant'']), (''txB'', [[], ''Restaurant''])]"
proof -
  have "map tr_guid (matching_transactions three_leg_db ''checking'' [] []) = [''txA'', ''txB'']"
    by (simp add: matching_transactions_def order_by_desc_def three_leg_db_def seed_defs)
  moreover have "map_sum id (map tx_summary)
      (GetSplitsForAccount pf three_leg_db ''checking'' [] [] 2) =
     Inr [(''txA'', [[], ''Groceries'', ''Restaurant''])]"
    by (simp add: GetSplitsForAccount_def query_eval three_leg_db_def seed_defs map_update_def
      own_split_def counterpart_split_def tx_summary_def coalesce_def Let_def)
  moreover have "map_sum id (map tx_summary)
      (GetSplitsForAccount pf three_leg_db ''checking'' [] [] 1) =
     Inr [(''txA'', [[], ''Groceries''])]"
    by (simp add: GetSplitsForAccount_def query_eval three_leg_db_def seed_defs map_update_def
      own_split_def counterpart_split_def tx_summary_def coalesce_def Let_def)
  moreover have "map_sum id (map tx_summary)
      (GetSplitsForAccount pf three_leg_db ''checking'' [] [] 0) =
     Inr [(''txA'', [[], ''Groceries'', ''Restaurant'']), (''txB'', [[], ''Restaurant''])]"
    by (simp add: GetSplitsForAccount_def query_eval three_leg_db_def seed_defs map_update_def
      own_split_def counterpart_split_def tx_summary_def coalesce_def Let_def)
  ultimately show ?thesis by simp
qed


section \<open>Spending by category\<close>

lemma set_sift [simp]: "set (sift lt ys x) = insert x (set ys)"
  by (induction ys) auto

lemma mset_sift [simp]: "mset (sift lt ys x) = add_mset x (mset ys)"
  by (induction ys) auto

lemma mset_fold_sift: "mset (fold (\<lambda>x p. sift lt p x) xs acc) = mset xs + mset acc"
  by (induction xs arbitrary: acc) auto

lemma mset_insertionSort [simp]: "mset (insertionSort lt xs) = mset xs"
  by (simp add: insertionSort_def mset_fold_sift)

lemma sift_sorted:
  fixes k :: "'a \<Rightarrow> int"
  assumes "\<And>a b. lt a b \<longleftrightarrow> k a > k b" "sorted_wrt (\<lambda>u v. k u \<le> k v) ys"
  shows "sorted_wrt (\<lambda>u v. k u \<le> k v) (sift lt ys x)"
  using assms(2) by (induction ys) (auto simp: assms(1))

lemma fold_sift_sorted:
  fixes k :: "'a \<Rightarrow> int"
  assumes "\<And>a b. lt a b \<longleftrightarrow> k a > k b" "sorted_wrt (\<lambda>u v. k u \<le> k v) acc"
  shows "sorted_wrt (\<lambda>u v. k u \<le> k v) (fold (\<lambda>x p. sift lt p x) xs acc)"
  using assms(2)
proof (induction xs arbitrary: acc)
  case Nil
  then show ?case by simp
next
  case (Cons x xs)
  have "sorted_wrt (\<lambda>u v. k u \<le> k v) (sift lt acc x)"
    using assms(1) Cons.prems by (rule sift_sorted)
  from Cons.IH [OF this] show ?case by simp
qed

lemma insertionSort_sorted:
  fixes k :: "'a \<Rightarrow> int"
  assumes "\<And>a b. lt a b \<longleftrightarrow> k a > k b"
  shows "sorted_wrt (\<lambda>a b. k b \<le> k a) (insertionSort lt xs)"
  using fold_sift_sorted [OF assms, where acc = "[]" and xs = xs]
  by (simp add: insertionSort_def sorted_wrt_rev)

lemma sorts_insertionSort:
  fixes k :: "'a \<Rightarrow> int"
  assumes "\<And>a b. lt a b \<longleftrightarrow> k a > k b"
  shows "sorts insertionSort lt"
  using insertionSort_sorted [of lt k, OF assms]
  by (simp add: sorts_def assms not_less)

lemma mset_sort_Slice:
  assumes "sorts pdq lt"
  shows "mset (sort_Slice pdq lt xs) = mset xs"
  using assms by (simp add: sort_Slice_def sorts_def)

lemma set_sort_Slice:
  assumes "sorts pdq lt"
  shows "set (sort_Slice pdq lt xs) = set xs"
  using mset_sort_Slice [OF assms, of xs] by (metis set_mset_mset)

lemma sort_Slice_sorted:
  fixes k :: "'a \<Rightarrow> int"
  assumes "sorts pdq lt" "\<And>a b. lt a b \<longleftrightarrow> k a > k b"
  shows "sorted_wrt (\<lambda>a b. k b \<le> k a) (sort_Slice pdq lt xs)"
proof (cases "length xs \<le> 12")
  case True
  then show ?thesis
    using insertionSort_sorted [of lt k xs, OF assms(2)] by (simp add: sort_Slice_def)
next
  case False
  have "sorted_wrt (\<lambda>a b. \<not> lt b a) (pdq lt xs)"
    using assms(1) by (simp add: sorts_def)
  then have "sorted_wrt (\<lambda>a b. k b \<le> k a) (pdq lt xs)"
    by (simp add: assms(2) not_less)
  with False show ?thesis by (simp add: sort_Slice_def)
qed

lemma sorted_desc_unique:
  fixes k :: "'a \<Rightarrow> int"
  assumes "mset xs = mset ys"
      and "sorted_wrt (\<lambda>a b. k b \<le> k a) xs" "sorted_wrt (\<lambda>a b. k b \<le> k a) ys"
      and "distinct (map k xs)"
  shows "xs = ys"
proof -
  have m: "mset (map k xs) = mset (map k ys)" using assms(1) by simp
  then have dy: "distinct (map k ys)" using assms(4) by (metis mset_eq_imp_distinct_iff)
  have sx: "sorted (rev (map k xs))" and sy: "sorted (rev (map k ys))"
    using assms(2,3) by (simp_all add: sorted_wrt_rev sorted_wrt_map)
  have "set (rev (map k xs)) = set (rev (map k ys))"
    using m by (metis set_mset_mset set_rev)
  with sx sy assms(4) dy have "rev (map k xs) = rev (map k ys)"
    by (intro sorted_distinct_set_unique) simp_all
  then have e: "map k xs = map k ys" by simp
  have "inj_on k (set xs \<union> set ys)"
    using assms(1,4) by (metis distinct_map mset_eq_setD sup.idem)
  with e show ?thesis by (simp add: inj_on_map_eq_map)
qed

lemma fold_add_split:
  "fold add_split sps st =
     (fst st + sum_list (map sp_ValueNum sps),
      if sps = [] then snd st else sp_ValueDenom (last sps))"
  by (induction sps arbitrary: st) (auto simp: add_split_def add.assoc)

lemma fold_print_category:
  "fold print_category cats (sb, gt, gd) =
     (sb @ concat (map (\<lambda>c. category_row (cat_Name c)
                               (FormatDecimal (cat_Total c) (cat_Denom c)) (cat_Count c)) cats),
      gt + sum_list (map cat_Total cats),
      if cats = [] then gd else cat_Denom (last cats))"
  by (induction cats arbitrary: sb gt gd) (auto simp: print_category_def add.assoc)

lemma set_map_update: "set (map_update k v m) \<subseteq> insert (k, v) (set m)"
  by (auto simp: map_update_def)

lemma collect_expenses_nonempty:
  assumes "collect_expenses rows (bm, nm, pm) = Inr (bm', nm', pm')"
      and "\<forall>e\<in>set bm. snd e \<noteq> []"
  shows "\<forall>e\<in>set bm'. snd e \<noteq> []"
  using assms
proof (induction rows arbitrary: bm nm pm)
  case Nil
  then show ?case by simp
next
  case (Cons r rows)
  obtain s a where r: "r = (s, a)" by (cases r)
  from Cons.prems(1) r obtain pg where pg: "ar_parent_guid a = Some pg"
    by (auto split: option.splits)
  define bm1 where "bm1 = map_update (ar_guid a) (map_get bm (ar_guid a) [] @ [expense_split s a]) bm"
  from Cons.prems(1) r pg
  have step: "collect_expenses rows (bm1, map_update (ar_guid a) (ar_name a) nm,
      map_update (ar_guid a) pg pm) = Inr (bm', nm', pm')"
    by (simp add: bm1_def)
  have "\<forall>e\<in>set bm1. snd e \<noteq> []"
  proof
    fix e assume "e \<in> set bm1"
    with set_map_update [of "ar_guid a" _ bm]
    have "e = (ar_guid a, map_get bm (ar_guid a) [] @ [expense_split s a]) \<or> e \<in> set bm"
      unfolding bm1_def by blast
    then show "snd e \<noteq> []"
      using Cons.prems(2) by auto
  qed
  with Cons.IH [OF step] show ?case by simp
qed

lemma GetExpenseSplits_nonempty:
  assumes "GetExpenseSplits db sd ed pg = Inr (byAccount, names)"
  shows "\<forall>e\<in>set byAccount. snd e \<noteq> []"
proof -
  from assms obtain bm nm pm where
    c: "collect_expenses (expense_rows db sd ed) ([], [], []) = Inr (bm, nm, pm)"
    and b: "set byAccount \<subseteq> set bm"
    by (auto simp: GetExpenseSplits_def split: sum.splits if_splits)
  from collect_expenses_nonempty [OF c] b show ?thesis by auto
qed

lemma category_denom:
  assumes "snd e \<noteq> []" "\<forall>sp\<in>set (snd e). sp_ValueDenom sp = d"
  shows "cat_Denom (category names e) = d"
  using assms by (simp add: category_def fold_add_split Let_def)

lemma by_total_desc_key: "by_total_desc a b \<longleftrightarrow> sint (cat_Total a) > sint (cat_Total b)"
  by (simp add: by_total_desc_def)

lemma spending_report_shared:
  assumes "cats \<noteq> []" "\<forall>c\<in>set cats. cat_Denom c = d"
  shows "spending_report sd ed cats =
     spending_header sd ed @
     concat (map (\<lambda>c. category_row (cat_Name c) (FormatDecimal (cat_Total c) d) (cat_Count c)) cats) @
     total_row (FormatDecimal (sum_list (map cat_Total cats)) d)"
proof -
  have "map (\<lambda>c. category_row (cat_Name c) (FormatDecimal (cat_Total c) (cat_Denom c)) (cat_Count c)) cats =
        map (\<lambda>c. category_row (cat_Name c) (FormatDecimal (cat_Total c) d) (cat_Count c)) cats"
    using assms(2) by (intro map_cong) auto
  then have eq: "concat (map (\<lambda>c. category_row (cat_Name c) (FormatDecimal (cat_Total c) (cat_Denom c)) (cat_Count c)) cats) =
        concat (map (\<lambda>c. category_row (cat_Name c) (FormatDecimal (cat_Total c) d) (cat_Count c)) cats)"
    by (rule arg_cong)
  have "cat_Denom (last cats) = d" using assms by simp
  then show ?thesis using assms(1)
    by (simp add: spending_report_def fold_print_category eq)
qed

lemma sum_list_scaled:
  fixes f :: "'a \<Rightarrow> int"
  shows "(\<Sum>c\<leftarrow>cats. f c * m) = (\<Sum>c\<leftarrow>cats. f c) * m"
  by (induction cats) (simp_all add: algebra_simps)

text \<open>
  C8, as amended. Let the splits of a non-empty report, those of the categories that
  the parent filter keeps, carry one denominator \<open>d\<close>. Then the report is the header,
  one row for each category with the rendering of its total over \<open>d\<close>, in descending
  order of the totals, and the TOTAL row with the rendering over \<open>d\<close> of the sum of the
  totals as Go adds them, in 64 bits; that sum is the exact sum of the totals when the
  exact sum is a 64-bit value. When moreover \<open>d\<close> is positive and divides 100, and
  neither a total nor the sum is the most negative 64-bit value, every figure of the
  report denotes its amount exactly and the figure of the TOTAL row denotes the sum of
  the amounts that the figures of the category rows denote.
\<close>

theorem spending_total_and_order:
  assumes ro: "visits_all ro" and pdq: "sorts pdq by_total_desc"
      and parent: "resolve_parent pf db parentAccount = Inr parentGUID"
      and query: "GetExpenseSplits db (spending_start pf startDate) (spending_end pf endDate)
                    parentGUID = Inr (byAccount, names)"
      and nonempty: "byAccount \<noteq> []"
      and shared: "\<forall>e\<in>set byAccount. \<forall>sp\<in>set (snd e). sp_ValueDenom sp = d"
  shows "let cats = spending_categories ro pdq byAccount names;
             exact = (\<Sum>c\<leftarrow>cats. sint (cat_Total c))
         in SpendingByCategory pf ro pdq db startDate endDate parentAccount =
              Inr (spending_header (spending_start pf startDate) (spending_end pf endDate) @
                   concat (map (\<lambda>c. category_row (cat_Name c) (FormatDecimal (cat_Total c) d)
                                       (cat_Count c)) cats) @
                   total_row (FormatDecimal (sum_list (map cat_Total cats)) d)) \<and>
            sorted_wrt (\<lambda>a b. sint (cat_Total b) \<le> sint (cat_Total a)) cats \<and>
            (in_int64 exact \<longrightarrow> sint (sum_list (map cat_Total cats)) = exact) \<and>
            (in_int64 exact \<and> exact \<noteq> - (2 ^ 63) \<and>
             (\<forall>c\<in>set cats. sint (cat_Total c) \<noteq> - (2 ^ 63)) \<and> 0 < sint d \<and> sint d dvd 100 \<longrightarrow>
               (\<forall>c\<in>set cats. hundredths (FormatDecimal (cat_Total c) d) =
                                Some (sint (cat_Total c) * (100 div sint d))) \<and>
               hundredths (FormatDecimal (sum_list (map cat_Total cats)) d) =
                 Some (\<Sum>c\<leftarrow>cats. sint (cat_Total c) * (100 div sint d)))"
proof -
  define cats where "cats = spending_categories ro pdq byAccount names"
  define exact where "exact = (\<Sum>c\<leftarrow>cats. sint (cat_Total c))"
  have ex: "sint (sum_list (map cat_Total cats)) = exact" if "in_int64 exact"
    using sint_sum_list_exact [of "map cat_Total cats"] that
    by (simp add: exact_def comp_def)
  have perm: "mset (ro byAccount) = mset byAccount"
    using ro by (simp add: visits_all_def)
  then have sr: "set (ro byAccount) = set byAccount" by (metis set_mset_mset)
  have "mset cats = mset (map (category names) byAccount)"
    using perm by (simp add: cats_def spending_categories_def mset_sort_Slice [OF pdq])
  then have ne: "cats \<noteq> []" using nonempty by auto
  have sc: "set cats = category names ` set byAccount"
    using sr by (simp add: cats_def spending_categories_def set_sort_Slice [OF pdq])
  have den: "\<forall>c\<in>set cats. cat_Denom c = d"
    using GetExpenseSplits_nonempty [OF query] shared
    by (auto simp: sc category_denom)
  have sorted: "sorted_wrt (\<lambda>a b. sint (cat_Total b) \<le> sint (cat_Total a)) cats"
    unfolding cats_def spending_categories_def
    by (rule sort_Slice_sorted [OF pdq]) (rule by_total_desc_key)
  have report: "SpendingByCategory pf ro pdq db startDate endDate parentAccount =
      Inr (spending_header (spending_start pf startDate) (spending_end pf endDate) @
           concat (map (\<lambda>c. category_row (cat_Name c) (FormatDecimal (cat_Total c) d)
                               (cat_Count c)) cats) @
           total_row (FormatDecimal (sum_list (map cat_Total cats)) d))"
    using parent query nonempty
    by (simp add: SpendingByCategory_def Let_def cats_def [symmetric]
        spending_report_shared [OF ne den])
  have figures: "(\<forall>c\<in>set cats. hundredths (FormatDecimal (cat_Total c) d) =
                                Some (sint (cat_Total c) * (100 div sint d))) \<and>
               hundredths (FormatDecimal (sum_list (map cat_Total cats)) d) =
                 Some (\<Sum>c\<leftarrow>cats. sint (cat_Total c) * (100 div sint d))"
    if h: "in_int64 exact \<and> exact \<noteq> - (2 ^ 63) \<and>
           (\<forall>c\<in>set cats. sint (cat_Total c) \<noteq> - (2 ^ 63)) \<and> 0 < sint d \<and> sint d dvd 100"
  proof -
    from h have d: "0 < sint d" "sint d dvd 100" by simp_all
    have rows: "\<forall>c\<in>set cats. hundredths (FormatDecimal (cat_Total c) d) =
                                Some (sint (cat_Total c) * (100 div sint d))"
      using h by (auto intro: hundredths_FormatDecimal [OF d])
    have "sint (sum_list (map cat_Total cats)) \<noteq> - (2 ^ 63)"
      using h ex by simp
    from hundredths_FormatDecimal [OF d this]
    have "hundredths (FormatDecimal (sum_list (map cat_Total cats)) d) =
          Some (exact * (100 div sint d))"
      using h ex by simp
    also have "exact * (100 div sint d) = (\<Sum>c\<leftarrow>cats. sint (cat_Total c) * (100 div sint d))"
      unfolding exact_def by (rule sum_list_scaled [symmetric])
    finally show ?thesis using rows by simp
  qed
  from report sorted ex figures show ?thesis
    unfolding Let_def cats_def [symmetric] exact_def [symmetric] by blast
qed

text \<open>
  C9, as amended. Two runs on the same store, arguments and clock reading, whatever
  order \<^verbatim>\<open>range\<close> takes through the map in each, give the same result when no two
  categories have the same total.
\<close>

theorem spending_deterministic_without_ties:
  assumes "visits_all ro1" "visits_all ro2" "sorts pdq by_total_desc"
      and "no_ties pf db startDate endDate parentAccount"
  shows "SpendingByCategory pf ro1 pdq db startDate endDate parentAccount =
         SpendingByCategory pf ro2 pdq db startDate endDate parentAccount"
proof (cases "resolve_parent pf db parentAccount")
  case (Inl err)
  then show ?thesis by (simp add: SpendingByCategory_def Let_def)
next
  case (Inr pg)
  show ?thesis
  proof (cases "GetExpenseSplits db (spending_start pf startDate) (spending_end pf endDate) pg")
    case (Inl err)
    with Inr show ?thesis by (simp add: SpendingByCategory_def Let_def)
  next
    case q: (Inr res)
    obtain byAccount names where res: "res = (byAccount, names)" by (cases res)
    have dist: "distinct (map (\<lambda>e. cat_Total (category names e)) byAccount)"
      using assms(4) Inr q res by (simp add: no_ties_def)
    have p1: "mset (ro1 byAccount) = mset byAccount" and p2: "mset (ro2 byAccount) = mset byAccount"
      using assms(1,2) by (simp_all add: visits_all_def)
    let ?c1 = "spending_categories ro1 pdq byAccount names"
    let ?c2 = "spending_categories ro2 pdq byAccount names"
    have m: "mset ?c1 = mset ?c2"
      using p1 p2 by (simp add: spending_categories_def mset_sort_Slice [OF assms(3)])
    have m1: "mset ?c1 = mset (map (category names) byAccount)"
      using p1 by (simp add: spending_categories_def mset_sort_Slice [OF assms(3)])
    have "distinct (map cat_Total (map (category names) byAccount))"
      using dist by (simp add: comp_def)
    then have "distinct (map (\<lambda>c. sint (cat_Total c)) (map (category names) byAccount))"
      by (auto simp add: distinct_map inj_on_def comp_def dest: signed_word_eqI)
    then have d1: "distinct (map (\<lambda>c. sint (cat_Total c)) ?c1)"
      using m1 by (metis mset_eq_imp_distinct_iff mset_map)
    have s1: "sorted_wrt (\<lambda>a b. sint (cat_Total b) \<le> sint (cat_Total a)) ?c1"
     and s2: "sorted_wrt (\<lambda>a b. sint (cat_Total b) \<le> sint (cat_Total a)) ?c2"
      unfolding spending_categories_def
      by (rule sort_Slice_sorted [OF assms(3)], rule by_total_desc_key)+
    have "?c1 = ?c2"
      by (rule sorted_desc_unique [OF m s1 s2 d1])
    with Inr q res show ?thesis by (simp add: SpendingByCategory_def Let_def)
  qed
qed

lemmas spending_eval = SpendingByCategory_def resolve_parent_def spending_start_def
  spending_end_def GetExpenseSplits_def expense_rows_def start_of_day_def end_of_day_def
  map_update_def map_get_def expense_split_def spending_categories_def category_def
  add_split_def sort_Slice_def insertionSort_def by_total_desc_def Let_def

lemma visits_all_id: "visits_all id" and visits_all_rev: "visits_all rev"
  by (simp_all add: visits_all_def)

lemma sorts_by_total_desc: "sorts insertionSort by_total_desc"
  by (rule sorts_insertionSort [of _ "\<lambda>c. sint (cat_Total c)"]) (rule by_total_desc_key)

lemmas report_eval = spending_report_def print_category_def

text \<open>The seed ledger, January and February 2025: the third scenario of the specification.\<close>

theorem spending_total_and_order_witness:
  "visits_all id \<and> sorts insertionSort by_total_desc \<and>
   SpendingByCategory example_platform id insertionSort seed_db ''2025-01-01'' ''2025-02-28'' [] =
     Inr (spending_header ''2025-01-01'' ''2025-02-28'' @
          category_row ''Groceries'' ''127.50'' 2 @
          category_row ''Restaurant'' ''25.00'' 1 @
          total_row ''152.50'') \<and>
   hundredths ''127.50'' = Some 12750 \<and> hundredths ''25.00'' = Some 2500 \<and>
   hundredths ''152.50'' = Some (12750 + 2500)"
proof -
  define bm where "bm = [(''groceries'',
        [expense_split (mk_split ''sp2b'' ''tx2'' ''groceries'' 8550 100) row_groceries,
         expense_split (mk_split ''sp3b'' ''tx3'' ''groceries'' 4200 100) row_groceries]),
      (''restaurant'',
        [expense_split (mk_split ''sp4b'' ''tx4'' ''restaurant'' 2500 100) row_restaurant])]"
  define nm where "nm = [(''groceries'', ''Groceries''), (''restaurant'', ''Restaurant'')]"
  have se: "spending_start example_platform ''2025-01-01'' = ''2025-01-01''"
           "spending_end example_platform ''2025-02-28'' = ''2025-02-28''"
    by (simp_all add: spending_start_def spending_end_def)
  have rows: "expense_rows seed_db ''2025-01-01'' ''2025-02-28'' =
      [(mk_split ''sp2b'' ''tx2'' ''groceries'' 8550 100, row_groceries),
       (mk_split ''sp3b'' ''tx3'' ''groceries'' 4200 100, row_groceries),
       (mk_split ''sp4b'' ''tx4'' ''restaurant'' 2500 100, row_restaurant)]"
    by (simp add: expense_rows_def start_of_day_def end_of_day_def seed_defs)
  have shared: "\<forall>e\<in>set bm. \<forall>sp\<in>set (snd e). sp_ValueDenom sp = 100"
    by (simp add: bm_def expense_split_def mk_split_def)
  have parent: "resolve_parent example_platform seed_db [] = Inr []"
    by (simp add: resolve_parent_def)
  have q: "GetExpenseSplits seed_db (spending_start example_platform ''2025-01-01'')
        (spending_end example_platform ''2025-02-28'') [] = Inr (bm, nm)"
    by (simp add: se GetExpenseSplits_def rows map_update_def map_get_def bm_def nm_def
        seed_rows mk_account_def)
  have ne: "bm \<noteq> []" by (simp add: bm_def)
  have cats: "spending_categories id insertionSort bm nm =
      [\<lparr>cat_Name = ''Groceries'', cat_Total = 12750, cat_Denom = 100, cat_Count = 2\<rparr>,
       \<lparr>cat_Name = ''Restaurant'', cat_Total = 2500, cat_Denom = 100, cat_Count = 1\<rparr>]"
    by (simp add: spending_eval bm_def nm_def seed_defs)
  have f: "FormatDecimal 12750 100 = ''127.50''" "FormatDecimal 2500 100 = ''25.00''"
          "FormatDecimal 15250 100 = ''152.50''"
    by (simp_all add: FormatDecimal_eval)
  from spending_total_and_order [OF visits_all_id sorts_by_total_desc parent q ne shared]
  have "SpendingByCategory example_platform id insertionSort seed_db ''2025-01-01'' ''2025-02-28'' [] =
     Inr (spending_header ''2025-01-01'' ''2025-02-28'' @
          category_row ''Groceries'' ''127.50'' 2 @
          category_row ''Restaurant'' ''25.00'' 1 @
          total_row ''152.50'') \<and>
     hundredths ''127.50'' = Some 12750 \<and> hundredths ''25.00'' = Some 2500 \<and>
     hundredths ''152.50'' = Some (12750 + 2500)"
    by (simp add: Let_def se cats f in_int64_def)
  then show ?thesis
    by (simp add: visits_all_id sorts_by_total_desc)
qed

text \<open>
  C8 as it is written fails in two ways. On the ledger in thousandths the rows display
  1.00 and 1.00 and the TOTAL row 2.01. On the ledger with the two large amounts the
  sum leaves the 64-bit range: the rows display two positive figures and the TOTAL row
  a negative one.
\<close>

theorem spending_total_counterexample:
  "SpendingByCategory example_platform id insertionSort thousandths_db
       ''2025-02-01'' ''2025-02-28'' [] =
     Inr (spending_header ''2025-02-01'' ''2025-02-28'' @
          category_row ''Restaurant'' ''1.00'' 1 @
          category_row ''Groceries'' ''1.00'' 1 @
          total_row ''2.01'') \<and>
   hundredths ''1.00'' = Some 100 \<and> hundredths ''2.01'' = Some 201 \<and>
   SpendingByCategory example_platform id insertionSort large_db
       ''2025-02-01'' ''2025-02-28'' [] =
     Inr (spending_header ''2025-02-01'' ''2025-02-28'' @
          category_row ''Restaurant'' ''46116860184273879.05'' 1 @
          category_row ''Groceries'' ''46116860184273879.04'' 1 @
          total_row ''-92233720368547758.07'') \<and>
   hundredths ''46116860184273879.05'' = Some 4611686018427387905 \<and>
   hundredths ''46116860184273879.04'' = Some 4611686018427387904 \<and>
   hundredths ''-92233720368547758.07'' = Some (- 9223372036854775807)"
proof -
  have rows1: "expense_rows thousandths_db ''2025-02-01'' ''2025-02-28'' =
      [(mk_split ''k1b'' ''k1'' ''groceries'' 1005 1000, row_groceries),
       (mk_split ''k2b'' ''k2'' ''restaurant'' 1006 1000, row_restaurant)]"
    by (simp add: expense_rows_def start_of_day_def end_of_day_def thousandths_db_def seed_defs)
  have rows2: "expense_rows large_db ''2025-02-01'' ''2025-02-28'' =
      [(mk_split ''g1b'' ''g1'' ''groceries'' 4611686018427387904 100, row_groceries),
       (mk_split ''g2b'' ''g2'' ''restaurant'' 4611686018427387905 100, row_restaurant)]"
    by (simp add: expense_rows_def start_of_day_def end_of_day_def large_db_def seed_defs)
  have f1: "FormatDecimal 1005 1000 = ''1.00''" "FormatDecimal 1006 1000 = ''1.00''"
           "FormatDecimal 2011 1000 = ''2.01''"
    by (simp_all add: FormatDecimal_eval)
  have f2: "FormatDecimal 4611686018427387904 100 = ''46116860184273879.04''"
           "FormatDecimal 4611686018427387905 100 = ''46116860184273879.05''"
           "FormatDecimal 9223372036854775809 100 = ''-92233720368547758.07''"
    by (simp_all add: FormatDecimal_eval)
  have a: "SpendingByCategory example_platform id insertionSort thousandths_db
       ''2025-02-01'' ''2025-02-28'' [] =
     Inr (spending_header ''2025-02-01'' ''2025-02-28'' @
          category_row ''Restaurant'' ''1.00'' 1 @
          category_row ''Groceries'' ''1.00'' 1 @
          total_row ''2.01'')"
    by (simp add: SpendingByCategory_def resolve_parent_def spending_start_def spending_end_def
        GetExpenseSplits_def rows1 map_update_def map_get_def expense_split_def
        spending_categories_def category_def add_split_def sort_Slice_def insertionSort_def
        by_total_desc_def Let_def seed_rows mk_account_def mk_split_def report_eval f1)
  have b: "SpendingByCategory example_platform id insertionSort large_db
       ''2025-02-01'' ''2025-02-28'' [] =
     Inr (spending_header ''2025-02-01'' ''2025-02-28'' @
          category_row ''Restaurant'' ''46116860184273879.05'' 1 @
          category_row ''Groceries'' ''46116860184273879.04'' 1 @
          total_row ''-92233720368547758.07'')"
    by (simp add: SpendingByCategory_def resolve_parent_def spending_start_def spending_end_def
        GetExpenseSplits_def rows2 map_update_def map_get_def expense_split_def
        spending_categories_def category_def add_split_def sort_Slice_def insertionSort_def
        by_total_desc_def Let_def seed_rows mk_account_def mk_split_def report_eval f2)
  have h: "hundredths ''1.00'' = Some 100" "hundredths ''2.01'' = Some 201"
    "hundredths ''46116860184273879.05'' = Some 4611686018427387905"
    "hundredths ''46116860184273879.04'' = Some 4611686018427387904"
    "hundredths ''-92233720368547758.07'' = Some (- 9223372036854775807)"
    by (simp_all add: figure_eval)
  from a b h show ?thesis by simp
qed

theorem spending_deterministic_witness:
  "visits_all id \<and> visits_all rev \<and> sorts insertionSort by_total_desc \<and>
   no_ties example_platform seed_db ''2025-01-01'' ''2025-02-28'' [] \<and>
   SpendingByCategory example_platform id insertionSort seed_db ''2025-01-01'' ''2025-02-28'' [] =
   SpendingByCategory example_platform rev insertionSort seed_db ''2025-01-01'' ''2025-02-28'' []"
proof -
  have rows: "expense_rows seed_db ''2025-01-01'' ''2025-02-28'' =
      [(mk_split ''sp2b'' ''tx2'' ''groceries'' 8550 100, row_groceries),
       (mk_split ''sp3b'' ''tx3'' ''groceries'' 4200 100, row_groceries),
       (mk_split ''sp4b'' ''tx4'' ''restaurant'' 2500 100, row_restaurant)]"
    by (simp add: expense_rows_def start_of_day_def end_of_day_def seed_defs)
  have n: "no_ties example_platform seed_db ''2025-01-01'' ''2025-02-28'' []"
    by (simp add: no_ties_def resolve_parent_def spending_start_def spending_end_def
        GetExpenseSplits_def rows map_update_def map_get_def expense_split_def category_def
        add_split_def Let_def seed_rows mk_account_def mk_split_def)
  from spending_deterministic_without_ties [OF visits_all_id visits_all_rev sorts_by_total_desc n] n
  show ?thesis by (simp add: visits_all_id visits_all_rev sorts_by_total_desc)
qed

text \<open>
  C9 as it is written fails on a tie. Groceries and the restaurant both total 25.00;
  one order of \<^verbatim>\<open>range\<close> prints groceries first, the reverse order the restaurant.
\<close>

theorem spending_order_counterexample:
  "visits_all id \<and> visits_all rev \<and>
   SpendingByCategory example_platform id insertionSort tie_db ''2025-02-01'' ''2025-02-28'' [] =
     Inr (spending_header ''2025-02-01'' ''2025-02-28'' @
          category_row ''Groceries'' ''25.00'' 1 @
          category_row ''Restaurant'' ''25.00'' 1 @
          total_row ''50.00'') \<and>
   SpendingByCategory example_platform rev insertionSort tie_db ''2025-02-01'' ''2025-02-28'' [] =
     Inr (spending_header ''2025-02-01'' ''2025-02-28'' @
          category_row ''Restaurant'' ''25.00'' 1 @
          category_row ''Groceries'' ''25.00'' 1 @
          total_row ''50.00'') \<and>
   SpendingByCategory example_platform id insertionSort tie_db ''2025-02-01'' ''2025-02-28'' [] \<noteq>
   SpendingByCategory example_platform rev insertionSort tie_db ''2025-02-01'' ''2025-02-28'' []"
proof -
  have rows: "expense_rows tie_db ''2025-02-01'' ''2025-02-28'' =
      [(mk_split ''t1b'' ''t1'' ''groceries'' 2500 100, row_groceries),
       (mk_split ''t2b'' ''t2'' ''restaurant'' 2500 100, row_restaurant)]"
    by (simp add: expense_rows_def start_of_day_def end_of_day_def tie_db_def seed_defs)
  have f: "FormatDecimal 2500 100 = ''25.00''" "FormatDecimal 5000 100 = ''50.00''"
    by (simp_all add: FormatDecimal_eval)
  have a: "SpendingByCategory example_platform id insertionSort tie_db ''2025-02-01'' ''2025-02-28'' [] =
     Inr (spending_header ''2025-02-01'' ''2025-02-28'' @
          category_row ''Groceries'' ''25.00'' 1 @
          category_row ''Restaurant'' ''25.00'' 1 @
          total_row ''50.00'')"
    by (simp add: SpendingByCategory_def resolve_parent_def spending_start_def spending_end_def
        GetExpenseSplits_def rows map_update_def map_get_def expense_split_def
        spending_categories_def category_def add_split_def sort_Slice_def insertionSort_def
        by_total_desc_def Let_def seed_rows mk_account_def mk_split_def report_eval f)
  have b: "SpendingByCategory example_platform rev insertionSort tie_db ''2025-02-01'' ''2025-02-28'' [] =
     Inr (spending_header ''2025-02-01'' ''2025-02-28'' @
          category_row ''Restaurant'' ''25.00'' 1 @
          category_row ''Groceries'' ''25.00'' 1 @
          total_row ''50.00'')"
    by (simp add: SpendingByCategory_def resolve_parent_def spending_start_def spending_end_def
        GetExpenseSplits_def rows map_update_def map_get_def expense_split_def
        spending_categories_def category_def add_split_def sort_Slice_def insertionSort_def
        by_total_desc_def Let_def seed_rows mk_account_def mk_split_def report_eval f)
  have c: "category_row ''Groceries'' ''25.00'' 1 @ category_row ''Restaurant'' ''25.00'' 1 \<noteq>
           category_row ''Restaurant'' ''25.00'' 1 @ category_row ''Groceries'' ''25.00'' 1"
    by (simp add: category_row_def pad_right_def)
  from a b c show ?thesis by (simp add: visits_all_id visits_all_rev)
qed

section \<open>Income and expenses by month\<close>

lemma fold_apply_row_income:
  "md_Income (fold apply_row rs md) =
     (if filter (\<lambda>r. mr_AccType r = ''INCOME'') rs = [] then md_Income md
      else - mr_Total (last (filter (\<lambda>r. mr_AccType r = ''INCOME'') rs)))"
proof (induction rs rule: rev_induct)
  case Nil
  show ?case by simp
next
  case (snoc r rs)
  show ?case
  proof (cases "mr_AccType r = ''INCOME''")
    case True
    then show ?thesis
      by (simp add: apply_row_def Let_def)
  next
    case False
    with snoc.IH show ?thesis
      by (simp add: apply_row_def Let_def)
  qed
qed

lemma fold_apply_row_expenses:
  "md_Expenses (fold apply_row rs md) =
     (if filter (\<lambda>r. mr_AccType r = ''EXPENSE'') rs = [] then md_Expenses md
      else mr_Total (last (filter (\<lambda>r. mr_AccType r = ''EXPENSE'') rs)))"
proof (induction rs rule: rev_induct)
  case Nil
  show ?case by simp
next
  case (snoc r rs)
  show ?case
  proof (cases "mr_AccType r = ''EXPENSE''")
    case True
    then show ?thesis
      by (simp add: apply_row_def Let_def)
  next
    case False
    with snoc.IH show ?thesis
      by (simp add: apply_row_def Let_def)
  qed
qed

lemma fold_apply_row_denom:
  "md_Denom (fold apply_row rs md) =
     (if filter (\<lambda>r. sint (mr_Denom r) > 0) rs = [] then md_Denom md
      else mr_Denom (last (filter (\<lambda>r. sint (mr_Denom r) > 0) rs)))"
proof (induction rs rule: rev_induct)
  case Nil
  show ?case by simp
next
  case (snoc r rs)
  show ?case
  proof (cases "sint (mr_Denom r) > 0")
    case True
    then show ?thesis
      by (simp add: apply_row_def Let_def)
  next
    case False
    with snoc.IH show ?thesis
      by (simp add: apply_row_def Let_def)
  qed
qed

lemma case_last:
  "(case xs of [] \<Rightarrow> z | y # ys \<Rightarrow> f (last (y # ys))) = (if xs = [] then z else f (last xs))"
  by (cases xs) simp_all

lemma bucket_rows_map:
  assumes "bucket_rows rows (bm, ord) = (bm', ord')"
  shows "map_of bm' m =
     (case map_of bm m of
        Some md \<Rightarrow> Some (fold apply_row (month_rows rows m) md)
      | None \<Rightarrow> if month_rows rows m = [] then None
                else Some (fold apply_row (month_rows rows m) new_month))"
  using assms
proof (induction rows arbitrary: bm ord)
  case Nil
  then show ?case by (simp add: month_rows_def split: option.splits)
next
  case (Cons r rows)
  show ?case
  proof (cases "map_of bm (mr_Month r)")
    case None
    with Cons.prems have step: "bucket_rows rows
        (map_update (mr_Month r) (apply_row r new_month) bm, ord @ [mr_Month r]) = (bm', ord')"
      by simp
    from Cons.IH [OF step] None show ?thesis
      by (auto simp: map_of_map_update month_rows_def split: option.splits)
  next
    case (Some md)
    with Cons.prems have step: "bucket_rows rows
        (map_update (mr_Month r) (apply_row r md) bm, ord) = (bm', ord')"
      by simp
    from Cons.IH [OF step] Some show ?thesis
      by (auto simp: map_of_map_update month_rows_def split: option.splits)
  qed
qed

lemma bucket_rows_order:
  assumes "bucket_rows rows (bm, ord) = (bm', ord')"
      and "set ord = dom (map_of bm)" "distinct ord"
  shows "set ord' = set ord \<union> mr_Month ` set rows \<and> distinct ord'"
  using assms
proof (induction rows arbitrary: bm ord)
  case Nil
  then show ?case by simp
next
  case (Cons r rows)
  show ?case
  proof (cases "map_of bm (mr_Month r)")
    case None
    with Cons.prems have step: "bucket_rows rows
        (map_update (mr_Month r) (apply_row r new_month) bm, ord @ [mr_Month r]) = (bm', ord')"
      by simp
    have "mr_Month r \<notin> set ord" using None Cons.prems(2) by (auto simp: dom_def)
    then have "set (ord @ [mr_Month r]) =
        dom (map_of (map_update (mr_Month r) (apply_row r new_month) bm))"
      "distinct (ord @ [mr_Month r])"
      using Cons.prems(2,3) by (auto simp: map_of_map_update)
    from Cons.IH [OF step this] show ?thesis by auto
  next
    case (Some md)
    with Cons.prems have step: "bucket_rows rows
        (map_update (mr_Month r) (apply_row r md) bm, ord) = (bm', ord')"
      by simp
    have "mr_Month r \<in> set ord" using Some Cons.prems(2) by (auto simp: dom_def)
    moreover have "set ord = dom (map_of (map_update (mr_Month r) (apply_row r md) bm))"
      using Some Cons.prems(2) by (auto simp: map_of_map_update)
    ultimately show ?thesis using Cons.IH [OF step _ Cons.prems(3)] by auto
  qed
qed

lemma month_data:
  assumes "bucket_rows rows ([], []) = (bm, ord)" "m \<in> mr_Month ` set rows"
  shows "map_of bm m = Some \<lparr> md_Income = - stored_total rows m ''INCOME'',
                               md_Expenses = stored_total rows m ''EXPENSE'',
                               md_Denom = month_denom rows m \<rparr>"
proof -
  from assms(2) have ne: "month_rows rows m \<noteq> []"
    by (auto simp: month_rows_def filter_empty_conv)
  with bucket_rows_map [OF assms(1), of m]
  have s: "map_of bm m = Some (fold apply_row (month_rows rows m) new_month)"
    by simp
  have f: "filter (\<lambda>r. mr_AccType r = ty) (month_rows rows m) =
           filter (\<lambda>r. mr_Month r = m \<and> mr_AccType r = ty) rows" for ty
    by (simp add: month_rows_def conj_commute)
  have g: "filter (\<lambda>r. sint (mr_Denom r) > 0) (month_rows rows m) =
           filter (\<lambda>r. mr_Month r = m \<and> sint (mr_Denom r) > 0) rows"
    by (simp add: month_rows_def conj_commute)
  have "md_Income (fold apply_row (month_rows rows m) new_month) = - stored_total rows m ''INCOME''"
    by (simp add: fold_apply_row_income f stored_total_def new_month_def case_last)
  moreover have "md_Expenses (fold apply_row (month_rows rows m) new_month) =
      stored_total rows m ''EXPENSE''"
    by (simp add: fold_apply_row_expenses f stored_total_def new_month_def case_last)
  moreover have "md_Denom (fold apply_row (month_rows rows m) new_month) = month_denom rows m"
    by (simp add: fold_apply_row_denom g month_denom_def new_month_def case_last)
  ultimately show ?thesis using s by simp
qed

lemma income_report_rows:
  "income_report months rows =
     income_header months @
     concat (map (\<lambda>m. month_row m (- stored_total rows m ''INCOME'')
                        (stored_total rows m ''EXPENSE'')
                        (- stored_total rows m ''INCOME'' - stored_total rows m ''EXPENSE'')
                        (month_denom rows m))
                 (sort (remdups (map mr_Month rows))))"
proof -
  obtain bm ord where b: "bucket_rows rows ([], []) = (bm, ord)"
    by (cases "bucket_rows rows ([], [])")
  from bucket_rows_order [OF b] have o: "set ord = mr_Month ` set rows" "distinct ord"
    by simp_all
  have "sort ord = sort (remdups (map mr_Month rows))"
    using o by (intro sorted_distinct_set_unique) simp_all
  moreover have "map (\<lambda>month. case map_of bm month of None \<Rightarrow> [] | Some md \<Rightarrow> month_line month md)
            (sort (remdups (map mr_Month rows))) =
        map (\<lambda>m. month_row m (- stored_total rows m ''INCOME'')
                        (stored_total rows m ''EXPENSE'')
                        (- stored_total rows m ''INCOME'' - stored_total rows m ''EXPENSE'')
                        (month_denom rows m))
            (sort (remdups (map mr_Month rows)))"
    by (rule map_cong [OF refl]) (simp add: month_data [OF b] month_line_def)
  ultimately have "concat (map (\<lambda>month. case map_of bm month of None \<Rightarrow> [] | Some md \<Rightarrow> month_line month md)
            (sort ord)) =
        concat (map (\<lambda>m. month_row m (- stored_total rows m ''INCOME'')
                        (stored_total rows m ''EXPENSE'')
                        (- stored_total rows m ''INCOME'' - stored_total rows m ''EXPENSE'')
                        (month_denom rows m))
            (sort (remdups (map mr_Month rows))))"
    by (simp only:)
  then show ?thesis
    by (simp only: income_report_def b prod.case)
qed

lemma month_denom_shared:
  assumes "\<forall>r\<in>set rows. mr_Month r = m \<longrightarrow> mr_Denom r = d" "0 < sint d"
      and "m \<in> mr_Month ` set rows"
  shows "month_denom rows m = d"
proof -
  have "filter (\<lambda>r. mr_Month r = m \<and> sint (mr_Denom r) > 0) rows = month_rows rows m"
    unfolding month_rows_def using assms(1,2) by (intro filter_cong) auto
  moreover have "month_rows rows m \<noteq> []"
    using assms(3) by (auto simp: month_rows_def filter_empty_conv)
  moreover have "\<forall>r\<in>set (month_rows rows m). mr_Denom r = d"
    using assms(1) by (auto simp: month_rows_def)
  ultimately show ?thesis
    by (auto simp: month_denom_def split: list.splits)
qed

lemma set_insert_key [simp]: "set (insert_key k xs) = insert k (set xs)"
  by (induction xs) auto

lemma distinct_insert_key [simp]: "distinct (insert_key k xs) \<longleftrightarrow> k \<notin> set xs \<and> distinct xs"
  by (induction xs) auto

lemma distinct_foldr_insert_key: "distinct ks \<Longrightarrow> distinct (foldr insert_key ks [])"
  and set_foldr_insert_key: "set (foldr insert_key ks []) = set ks"
  by (induction ks) auto

lemma distinct_month_groups: "distinct (month_groups src)"
  by (simp add: month_groups_def distinct_foldr_insert_key)

lemma aggregate_groups_keys:
  assumes "aggregate_groups src ks = Inr rows"
  shows "map (\<lambda>r. (Some (mr_Month r), mr_AccType r)) rows = ks"
  using assms
proof (induction ks arbitrary: rows)
  case Nil
  then show ?case by simp
next
  case (Cons k ks)
  from Cons.prems obtain month rest where
    "fst k = Some month" "aggregate_groups src ks = Inr rest"
    "mr_Month (hd rows) = month" "mr_AccType (hd rows) = snd k" "rows = hd rows # rest"
    by (auto simp: Let_def split: sum.splits option.splits)
  with Cons.IH [of rest] show ?case
    by (cases rows) (auto simp: prod_eq_iff)
qed

lemma monthly_rows_distinct:
  assumes "GetMonthlyIncomeExpenses pf db sd ed = Inr rows"
  shows "distinct (map (\<lambda>r. (mr_Month r, mr_AccType r)) rows)"
proof -
  let ?src = "monthly_source pf db sd ed"
  from assms have "aggregate_groups ?src (month_groups ?src) = Inr rows"
    by (simp add: GetMonthlyIncomeExpenses_def Let_def)
  from aggregate_groups_keys [OF this] distinct_month_groups [of ?src]
  have "distinct (map (\<lambda>r. (Some (mr_Month r), mr_AccType r)) rows)" by simp
  then have "distinct (map ((\<lambda>p. (Some (fst p), snd p)) \<circ> (\<lambda>r. (mr_Month r, mr_AccType r))) rows)"
    by (simp add: comp_def)
  then have "distinct (map (\<lambda>p. (Some (fst p), snd p)) (map (\<lambda>r. (mr_Month r, mr_AccType r)) rows))"
    by (simp only: map_map)
  then show ?thesis
    by (simp only: distinct_map)
qed

text \<open>
  C7, as amended. Let \<open>rows\<close> be what the store returns for the window of the call: at
  most one row for each month and account type. The report is the header and one line
  for each month of \<open>rows\<close>, in strictly ascending order of the month keys. The line of
  a month renders the negation of its stored income total, its stored expense total as
  it is, and the first minus the second, in \<^verbatim>\<open>int64\<close> arithmetic, all three over one
  denominator; when the rows of the month share a positive denominator, that denominator
  is theirs.
\<close>

theorem income_vs_expenses_rows:
  assumes "GetMonthlyIncomeExpenses pf db
             (fst (income_window pf (if months \<le> 0 then 6 else months)))
             (snd (income_window pf (if months \<le> 0 then 6 else months))) = Inr rows"
  shows "IncomeVsExpenses pf db months =
           Inr (income_header (if months \<le> 0 then 6 else months) @
                concat (map (\<lambda>m. month_row m (- stored_total rows m ''INCOME'')
                                   (stored_total rows m ''EXPENSE'')
                                   (- stored_total rows m ''INCOME'' -
                                      stored_total rows m ''EXPENSE'')
                                   (month_denom rows m))
                            (sort (remdups (map mr_Month rows))))) \<and>
         sorted (sort (remdups (map mr_Month rows))) \<and>
         distinct (sort (remdups (map mr_Month rows))) \<and>
         distinct (map (\<lambda>r. (mr_Month r, mr_AccType r)) rows) \<and>
         (\<forall>m d. m \<in> mr_Month ` set rows \<and> 0 < sint d \<and>
                 (\<forall>r\<in>set rows. mr_Month r = m \<longrightarrow> mr_Denom r = d)
                 \<longrightarrow> month_denom rows m = d)"
proof -
  have "IncomeVsExpenses pf db months =
      Inr (income_report (if months \<le> 0 then 6 else months) rows)"
    using assms by (simp add: IncomeVsExpenses_def Let_def)
  moreover have "\<forall>m d. m \<in> mr_Month ` set rows \<and> 0 < sint d \<and>
                 (\<forall>r\<in>set rows. mr_Month r = m \<longrightarrow> mr_Denom r = d)
                 \<longrightarrow> month_denom rows m = d"
    using month_denom_shared by blast
  ultimately show ?thesis
    using monthly_rows_distinct [OF assms]
    by (simp add: income_report_rows)
qed


lemmas monthly_eval = GetMonthlyIncomeExpenses_def monthly_source_def month_groups_def
  month_key_le_def start_of_day_def end_of_day_def sql_SUM_def in_int64_def Let_def

theorem income_vs_expenses_rows_witness:
  "GetMonthlyIncomeExpenses example_platform seed_db ''2024-01-01'' ''2025-03-01'' =
     Inr [\<lparr>mr_Month = ''2025-01'', mr_AccType = ''EXPENSE'', mr_Total = 11050, mr_Denom = 100\<rparr>,
          \<lparr>mr_Month = ''2025-01'', mr_AccType = ''INCOME'', mr_Total = - 300000, mr_Denom = 100\<rparr>,
          \<lparr>mr_Month = ''2025-02'', mr_AccType = ''EXPENSE'', mr_Total = 4200, mr_Denom = 100\<rparr>,
          \<lparr>mr_Month = ''2025-02'', mr_AccType = ''INCOME'', mr_Total = - 300000, mr_Denom = 100\<rparr>] \<and>
   IncomeVsExpenses example_platform seed_db 24 =
     Inr (income_header 24 @
          month_row ''2025-01'' 300000 11050 288950 100 @
          month_row ''2025-02'' 300000 4200 295800 100) \<and>
   FormatDecimal 288950 100 = ''2889.50'' \<and> FormatDecimal 295800 100 = ''2958.00''"
proof -
  define rows where "rows =
        [\<lparr>mr_Month = ''2025-01'', mr_AccType = ''EXPENSE'', mr_Total = 11050, mr_Denom = 100\<rparr>,
         \<lparr>mr_Month = ''2025-01'', mr_AccType = ''INCOME'', mr_Total = - 300000, mr_Denom = 100\<rparr>,
         \<lparr>mr_Month = ''2025-02'', mr_AccType = ''EXPENSE'', mr_Total = 4200, mr_Denom = 100\<rparr>,
         \<lparr>mr_Month = ''2025-02'', mr_AccType = ''INCOME'', mr_Total = - 300000, mr_Denom = (100 :: int64)\<rparr>]"
  have w: "income_window example_platform 24 = (''2024-01-01'', ''2025-03-01'')"
    by (simp add: income_window_def example_platform_def Let_def)
  have q: "GetMonthlyIncomeExpenses example_platform seed_db ''2024-01-01'' ''2025-03-01'' = Inr rows"
    by (simp add: monthly_eval example_platform_def seed_defs rows_def)
  then have q': "GetMonthlyIncomeExpenses example_platform seed_db
             (fst (income_window example_platform (if (24::int) \<le> 0 then 6 else 24)))
             (snd (income_window example_platform (if (24::int) \<le> 0 then 6 else 24))) = Inr rows"
    by (simp add: w)
  have st: "stored_total rows ''2025-01'' ''INCOME'' = - 300000"
           "stored_total rows ''2025-01'' ''EXPENSE'' = 11050"
           "stored_total rows ''2025-02'' ''INCOME'' = - 300000"
           "stored_total rows ''2025-02'' ''EXPENSE'' = 4200"
    by (simp_all add: stored_total_def rows_def)
  have sh: "''2025-01'' \<in> mr_Month ` set rows \<and> 0 < sint (100 :: int64) \<and>
            (\<forall>r\<in>set rows. mr_Month r = ''2025-01'' \<longrightarrow> mr_Denom r = 100)"
           "''2025-02'' \<in> mr_Month ` set rows \<and> 0 < sint (100 :: int64) \<and>
            (\<forall>r\<in>set rows. mr_Month r = ''2025-02'' \<longrightarrow> mr_Denom r = 100)"
    by (simp_all add: rows_def)
  have ms: "sort (remdups (map mr_Month rows)) = [''2025-01'', ''2025-02'']"
    by (simp add: rows_def)
  note t = income_vs_expenses_rows [OF q']
  from t sh have md: "month_denom rows ''2025-01'' = 100" "month_denom rows ''2025-02'' = 100"
    by blast+
  have f: "FormatDecimal 288950 100 = ''2889.50''" "FormatDecimal 295800 100 = ''2958.00''"
    by (simp_all add: FormatDecimal_eval)
  from t have "IncomeVsExpenses example_platform seed_db 24 =
     Inr (income_header 24 @
          month_row ''2025-01'' 300000 11050 288950 100 @
          month_row ''2025-02'' 300000 4200 295800 100)"
    by (simp add: ms st md)
  with q f show ?thesis by (simp add: rows_def)
qed

text \<open>
  C7 as it is written fails on a month with two denominators. The stored expense total
  of February is 5000/1000, that is 5.00; the report prints it over the denominator of
  the income row, as 50.00, and a net of 2950.00.
\<close>

theorem income_vs_expenses_counterexample:
  "GetMonthlyIncomeExpenses example_platform mixed_db ''2024-01-01'' ''2025-03-01'' =
     Inr [\<lparr>mr_Month = ''2025-02'', mr_AccType = ''EXPENSE'', mr_Total = 5000, mr_Denom = 1000\<rparr>,
          \<lparr>mr_Month = ''2025-02'', mr_AccType = ''INCOME'', mr_Total = - 300000, mr_Denom = 100\<rparr>] \<and>
   IncomeVsExpenses example_platform mixed_db 6 =
     Inr (income_header 6 @
          ''  '' @ pad_right 10 ''2025-02'' @ '' '' @ pad_left 12 ''3000.00'' @ '' '' @
          pad_left 12 ''50.00'' @ '' '' @ pad_left 12 ''2950.00'' @ nl) \<and>
   FormatDecimal 5000 1000 = ''5.00''"
proof -
  have w: "income_window example_platform 6 = (''2024-01-01'', ''2025-03-01'')"
    by (simp add: income_window_def example_platform_def Let_def)
  have q: "GetMonthlyIncomeExpenses example_platform mixed_db ''2024-01-01'' ''2025-03-01'' =
     Inr [\<lparr>mr_Month = ''2025-02'', mr_AccType = ''EXPENSE'', mr_Total = 5000, mr_Denom = 1000\<rparr>,
          \<lparr>mr_Month = ''2025-02'', mr_AccType = ''INCOME'', mr_Total = - 300000, mr_Denom = 100\<rparr>]"
    by (simp add: monthly_eval example_platform_def mixed_db_def seed_defs)
  have f: "FormatDecimal 300000 100 = ''3000.00''" "FormatDecimal 5000 100 = ''50.00''"
          "FormatDecimal 295000 100 = ''2950.00''" "FormatDecimal 5000 1000 = ''5.00''"
    by (simp_all add: FormatDecimal_eval)
  have "IncomeVsExpenses example_platform mixed_db 6 =
     Inr (income_header 6 @
          ''  '' @ pad_right 10 ''2025-02'' @ '' '' @ pad_left 12 ''3000.00'' @ '' '' @
          pad_left 12 ''50.00'' @ '' '' @ pad_left 12 ''2950.00'' @ nl)"
    by (simp add: IncomeVsExpenses_def w q income_report_def apply_row_def new_month_def
        map_update_def month_line_def month_row_def f Let_def)
  with q f show ?thesis by simp
qed


end
